theory Spec2Isabelle
  imports Main "HOL-Library.AList"
begin

section \<open>JavaScript values and objects\<close>

text \<open>
  The values that travel through \<^verbatim>\<open>PostgresCrudService\<close>: criteria values, row
  columns and bound statement arguments. Numbers are integers here (no floating point,
  no NaN), a \<^verbatim>\<open>Date\<close> is its epoch time and a \<^verbatim>\<open>Buffer\<close> its bytes. A plain
  object is an association list in the order of \<^verbatim>\<open>Object.keys\<close>; only own properties
  are modelled, and keys are taken to be ordinary column names (not array indices), so
  that a newly assigned key is enumerated last.
\<close>

datatype jsval =
    VUndef
  | VNull
  | VBool bool
  | VNum int
  | VStr string
  | VDate int
  | VBuf "nat list"
  | VArr "jsval list"
  | VObj "(string \<times> jsval) list"

type_synonym obj = "(string \<times> jsval) list"

text \<open>JavaScript truthiness: what \<^verbatim>\<open>if (x)\<close> and \<^verbatim>\<open>x || d\<close> test.\<close>

fun truthy :: "jsval \<Rightarrow> bool" where
  "truthy VUndef = False"
| "truthy VNull = False"
| "truthy (VBool b) = b"
| "truthy (VNum n) = (n \<noteq> 0)"
| "truthy (VStr s) = (s \<noteq> [])"
| "truthy (VDate t) = True"
| "truthy (VBuf bs) = True"
| "truthy (VArr vs) = True"
| "truthy (VObj ob) = True"

text \<open>\<^verbatim>\<open>ob[k]\<close>: the value of the property, \<^verbatim>\<open>undefined\<close> when there is none.\<close>

definition get_prop :: "obj \<Rightarrow> string \<Rightarrow> jsval" where
  "get_prop ob k = (case map_of ob k of None \<Rightarrow> VUndef | Some v \<Rightarrow> v)"

text \<open>\<^verbatim>\<open>ob[k] = v\<close>: an existing key keeps its place, a new key goes last.\<close>

definition set_prop :: "obj \<Rightarrow> string \<Rightarrow> jsval \<Rightarrow> obj" where
  "set_prop ob k v = AList.update k v ob"

text \<open>\<^verbatim>\<open>delete ob[k]\<close>.\<close>

definition delete_prop :: "obj \<Rightarrow> string \<Rightarrow> obj" where
  "delete_prop ob k = AList.delete k ob"

text \<open>\<^verbatim>\<open>Object.keys(ob)\<close>: every key once, in the order of its first entry.\<close>

definition okeys :: "obj \<Rightarrow> string list" where
  "okeys ob = map fst (AList.clearjunk ob)"

text \<open>\<^verbatim>\<open>Object.assign({}, ob)\<close>: a fresh object with the same properties.\<close>

definition assign_copy :: "obj \<Rightarrow> obj" where
  "assign_copy ob = map (\<lambda>k. (k, get_prop ob k)) (okeys ob)"

text \<open>\<^verbatim>\<open>s || d\<close> on an optional string: absent, null and the empty string are falsy.\<close>

definition str_or :: "string option \<Rightarrow> string \<Rightarrow> string" where
  "str_or s d = (case s of None \<Rightarrow> d | Some x \<Rightarrow> if x = [] then d else x)"

definition str_truthy :: "string option \<Rightarrow> bool" where
  "str_truthy s = (case s of None \<Rightarrow> False | Some x \<Rightarrow> x \<noteq> [])"

section \<open>Statements: clauses, placeholders and text\<close>

text \<open>
  The source builds SQL text from template literals, interpolating identifiers and
  positional placeholders \<^verbatim>\<open>$n\<close>. A WHERE fragment is kept here as a clause term, and
  a statement renders to a list of tokens, literal text or a placeholder, whose
  concatenation is the text handed to the driver.
\<close>

datatype cmp = OpEq | OpNe | OpGt | OpGe | OpLt | OpLe

datatype clause =
    CCmp string cmp nat
  | CLower string cmp nat
  | CIn string bool "nat list"
  | CBoth clause clause

datatype tok = T string | P nat

text \<open>The decimal text of \<^verbatim>\<open>'$' + n\<close>.\<close>

definition digit :: "nat \<Rightarrow> char" where
  "digit d = ''0123456789'' ! d"

fun string_of_nat :: "nat \<Rightarrow> string" where
  "string_of_nat n =
     (if n < 10 then [digit n] else string_of_nat (n div 10) @ [digit (n mod 10)])"

definition quoted :: "string \<Rightarrow> string" where
  "quoted f = [CHR 0x22] @ f @ [CHR 0x22]"

fun cmp_text :: "cmp \<Rightarrow> string" where
  "cmp_text OpEq = ''=''"
| "cmp_text OpNe = ''!=''"
| "cmp_text OpGt = ''>''"
| "cmp_text OpGe = ''>=''"
| "cmp_text OpLt = ''<''"
| "cmp_text OpLe = ''<=''"

text \<open>\<^verbatim>\<open>xs.join(sep)\<close> on lists of tokens or characters.\<close>

fun join :: "'a list \<Rightarrow> 'a list list \<Rightarrow> 'a list" where
  "join sep [] = []"
| "join sep [x] = x"
| "join sep (x # y # ys) = x @ sep @ join sep (y # ys)"

fun render_clause :: "clause \<Rightarrow> tok list" where
  "render_clause (CCmp f c n) = [T (quoted f @ '' '' @ cmp_text c @ '' ''), P n]"
| "render_clause (CLower f c n) =
     [T (''LOWER('' @ quoted f @ '') '' @ cmp_text c @ '' LOWER(''), P n, T '')'']"
| "render_clause (CIn f neg ns) =
     [T (quoted f @ '' '' @ (if neg then ''NOT '' else '''') @ ''IN ('')]
     @ join [T '', ''] (map (\<lambda>n. [P n]) ns) @ [T '')'']"
| "render_clause (CBoth a b) = render_clause a @ [T '' AND ''] @ render_clause b"

definition render_where :: "clause list \<Rightarrow> tok list" where
  "render_where wh =
     (if wh = [] then [] else [T '' WHERE ''] @ join [T '' AND ''] (map render_clause wh))"

fun tok_text :: "tok \<Rightarrow> string" where
  "tok_text (T s) = s"
| "tok_text (P n) = ''$'' @ string_of_nat n"

definition sql_text :: "tok list \<Rightarrow> string" where
  "sql_text ts = concat (map tok_text ts)"

fun placeholders :: "tok list \<Rightarrow> nat list" where
  "placeholders [] = []"
| "placeholders (T s # ts) = placeholders ts"
| "placeholders (P n # ts) = n # placeholders ts"

datatype projection = Star | CountStar | Cols "string list"

datatype lim = NoLimit | LimitLit nat | LimitParam nat

datatype stmt =
    Select projection "clause list" "(string \<times> int) list option" "nat option" lim
  | Update "(string \<times> nat) list" "clause list" bool
  | Delete "clause list" bool

fun stmt_where :: "stmt \<Rightarrow> clause list" where
  "stmt_where (Select pr wh srt off l) = wh"
| "stmt_where (Update sets wh ret) = wh"
| "stmt_where (Delete wh ret) = wh"

fun render_projection :: "projection \<Rightarrow> string" where
  "render_projection Star = ''*''"
| "render_projection CountStar = ''COUNT(*) AS count''"
| "render_projection (Cols cs) = join '', '' (map quoted cs)"

definition render_sort :: "(string \<times> int) list option \<Rightarrow> tok list" where
  "render_sort srt =
     (case srt of
        None \<Rightarrow> []
      | Some s \<Rightarrow>
          [T ('' ORDER BY '' @
              join '','' (map (\<lambda>(f, d). quoted f @ '' '' @ (if d > 0 then ''ASC'' else ''DESC'')) s))])"

fun render_limit :: "lim \<Rightarrow> tok list" where
  "render_limit NoLimit = []"
| "render_limit (LimitLit n) = [T ('' LIMIT '' @ string_of_nat n)]"
| "render_limit (LimitParam n) = [T '' LIMIT '', P n]"

definition render_offset :: "nat option \<Rightarrow> tok list" where
  "render_offset off = (case off of None \<Rightarrow> [] | Some n \<Rightarrow> [T '' OFFSET '', P n])"

definition render_sets :: "(string \<times> nat) list \<Rightarrow> tok list" where
  "render_sets sets = join [T '', ''] (map (\<lambda>(f, n). [T (quoted f @ '' = ''), P n]) sets)"

definition returning :: "bool \<Rightarrow> tok list" where
  "returning ret = (if ret then [T '' RETURNING *''] else [])"

text \<open>The statement text of a table \<^verbatim>\<open>"schema"."table"\<close>.\<close>

fun render_stmt :: "string \<Rightarrow> string \<Rightarrow> stmt \<Rightarrow> tok list" where
  "render_stmt sch tbl (Select pr wh srt off l) =
     [T (''SELECT '' @ render_projection pr @ '' FROM '' @ quoted sch @ ''.'' @ quoted tbl)]
     @ render_where wh @ render_sort srt @ render_offset off @ render_limit l"
| "render_stmt sch tbl (Update sets wh ret) =
     [T (''UPDATE '' @ quoted sch @ ''.'' @ quoted tbl @ '' SET '')] @ render_sets sets
     @ render_where wh @ returning ret"
| "render_stmt sch tbl (Delete wh ret) =
     [T (''DELETE FROM '' @ quoted sch @ ''.'' @ quoted tbl)] @ render_where wh @ returning ret"

section \<open>The criteria compiler\<close>

text \<open>
  \<^verbatim>\<open>_buildCriteria(criteria, where, args, equality)\<close> pushes onto the two arrays it is
  given; the model passes them as a state and returns them updated, together with the
  diagnostics sent to \<^verbatim>\<open>app.report\<close>.
\<close>

record cstate =
  wheres :: "clause list"
  args :: "jsval list"
  reports :: "string list"

definition empty_cstate :: cstate where
  "empty_cstate = \<lparr>wheres = [], args = [], reports = []\<rparr>"

text \<open>\<^verbatim>\<open>where.push(c); args.push(v)\<close>.\<close>

definition push :: "clause \<Rightarrow> jsval \<Rightarrow> cstate \<Rightarrow> cstate" where
  "push c v st = st\<lparr>wheres := wheres st @ [c], args := args st @ [v]\<rparr>"

text \<open>
  One operator key of an operator object, \<^verbatim>\<open>if (value.$gt) { ... }\<close>: the clause is
  pushed when the operand is truthy.
\<close>

definition op_key :: "obj \<Rightarrow> string \<Rightarrow> (nat \<Rightarrow> clause) \<Rightarrow> cstate \<Rightarrow> cstate" where
  "op_key ob k mk st =
     (if truthy (get_prop ob k) then push (mk (length (args st) + 1)) (get_prop ob k) st
      else st)"

text \<open>The keys tested after \<^verbatim>\<open>$ne\<close>, in the order of the source.\<close>

definition range_ops :: "string \<Rightarrow> obj \<Rightarrow> cstate \<Rightarrow> cstate" where
  "range_ops field ob st =
     op_key ob ''$nei'' (CLower field OpNe)
       (op_key ob ''$eqi'' (CLower field OpEq)
         (op_key ob ''$lte'' (CCmp field OpLe)
           (op_key ob ''$lt'' (CCmp field OpLt)
             (op_key ob ''$gte'' (CCmp field OpGe)
               (op_key ob ''$gt'' (CCmp field OpGt) st)))))"

definition no_modifier :: string where
  "no_modifier = ''PostgresCrudService: No object modifier set on object query criteria''"

text \<open>\<^verbatim>\<open>if (startingWhereLength === where.length) await this.app.report(...)\<close>.\<close>

definition report_unmatched :: "nat \<Rightarrow> cstate \<Rightarrow> cstate" where
  "report_unmatched startingWhereLength st =
     (if startingWhereLength = length (wheres st)
      then st\<lparr>reports := reports st @ [no_modifier]\<rparr> else st)"

text \<open>
  The body of the \<^verbatim>\<open>forEach\<close> callback for one field and its value. The recursive
  call \<^verbatim>\<open>this._buildCriteria({ [field]: value.$ne }, where, args, false)\<close> is on an
  object with that single key, so it runs this body once more, on \<^verbatim>\<open>value.$ne\<close>.
\<close>

function (sequential) build_field :: "string \<Rightarrow> jsval \<Rightarrow> bool \<Rightarrow> cstate \<Rightarrow> cstate" where
  "build_field field (VArr vs) equality st =
     st\<lparr>wheres := wheres st @
           [CIn field (\<not> equality) [length (args st) + 1 ..< length (args st) + 1 + length vs]],
        args := args st @ vs\<rparr>"
| "build_field field (VObj ob) equality st =
     report_unmatched (length (wheres st))
       (range_ops field ob
         (if truthy (get_prop ob ''$ne'')
          then build_field field (get_prop ob ''$ne'') False st
          else st))"
| "build_field field v equality st =
     push (CCmp field (if equality then OpEq else OpNe) (length (args st) + 1)) v st"
  by pat_completeness auto
termination
proof (relation "measure (\<lambda>(field, v, equality, st). size v)")
  show "wf (measure (\<lambda>(field, v, equality, st). size v))"
    by simp
next
  fix field :: string and ob :: obj and equality :: bool and st :: cstate
  have "size (get_prop ob k) < size (VObj ob)" for k
    by (induction ob) (auto simp: get_prop_def)
  then show "((field, get_prop ob ''$ne'', False, st), (field, VObj ob, equality, st))
               \<in> measure (\<lambda>(field, v, equality, st). size v)"
    by (simp del: jsval.size)
qed

definition buildCriteria :: "obj \<Rightarrow> cstate \<Rightarrow> bool \<Rightarrow> cstate" where
  "buildCriteria criteria st equality =
     fold (\<lambda>field s. build_field field (get_prop criteria field) equality s) (okeys criteria) st"

section \<open>The service and its construction\<close>

record crud =
  service :: nat
  schema :: string
  table :: string
  idField :: string
  statusField :: string
  updatedField :: "string option"
  createRetryCount :: nat
  modifiableKeys :: "string list"
  deletedStatus :: string
  concealDeadResources :: bool

text \<open>
  The \<^verbatim>\<open>options\<close> of the constructor. For the options read with \<^verbatim>\<open>||\<close> or
  \<^verbatim>\<open>!\<close>, \<open>None\<close> is a key that is absent or null: both are falsy there.
  \<^verbatim>\<open>concealDeadResources\<close> is read with \<^verbatim>\<open>!== undefined\<close>, so for it \<open>None\<close> is
  the absent key only and a null is the value \<open>Some VNull\<close>; the instance uses the value
  in conditions only, and keeps its truthiness here. \<^verbatim>\<open>updatedField\<close> of the instance
  is optional because callers assign \<^verbatim>\<open>crud.updatedField = null\<close> after construction.
\<close>

record crud_options =
  opt_service :: "nat option"
  opt_schema :: "string option"
  opt_table :: "string option"
  opt_idField :: "string option"
  opt_statusField :: "string option"
  opt_updatedField :: "string option"
  opt_createRetryCount :: "nat option"
  opt_modifiableKeys :: "string list option"
  opt_deletedStatus :: "string option"
  opt_concealDeadResources :: "jsval option"

datatype error =
    OptionsRequired
  | ServiceRequired
  | SchemaRequired
  | TableRequired
  | UpdateWithoutId
  | DeleteWithoutId

fun message :: "error \<Rightarrow> string" where
  "message OptionsRequired = ''PostgresCrudService: `options` are required.''"
| "message ServiceRequired = ''PostgresCrudService: `service` must be defined on initialization''"
| "message SchemaRequired = ''PostgresCrudService: `schema` must be defined on initialization''"
| "message TableRequired = ''PostgresCrudService: `table` must be defined on initialization''"
| "message UpdateWithoutId = ''PostgresCrudService: Cannot update row if id field not provided''"
| "message DeleteWithoutId = ''PostgresCrudService: Cannot delete row if id field not provided''"

definition constructor :: "crud_options option \<Rightarrow> error + crud" where
  "constructor options =
     (case options of
        None \<Rightarrow> Inl OptionsRequired
      | Some opts \<Rightarrow>
          (case opt_service opts of
             None \<Rightarrow> Inl ServiceRequired
           | Some srv \<Rightarrow>
               if \<not> str_truthy (opt_schema opts) then Inl SchemaRequired
               else if \<not> str_truthy (opt_table opts) then Inl TableRequired
               else Inr \<lparr>service = srv,
                         schema = the (opt_schema opts),
                         table = the (opt_table opts),
                         idField = str_or (opt_idField opts) ''id'',
                         statusField = str_or (opt_statusField opts) ''status'',
                         updatedField = Some (str_or (opt_updatedField opts) ''updated''),
                         createRetryCount =
                           (case opt_createRetryCount opts of
                              None \<Rightarrow> 3 | Some n \<Rightarrow> if n = 0 then 3 else n),
                         modifiableKeys =
                           (case opt_modifiableKeys opts of None \<Rightarrow> [] | Some ks \<Rightarrow> ks),
                         deletedStatus = str_or (opt_deletedStatus opts) ''dead'',
                         concealDeadResources =
                           (case opt_concealDeadResources opts of
                              None \<Rightarrow> True | Some v \<Rightarrow> truthy v)\<rparr>))"

section \<open>Queries handed to the pool\<close>

text \<open>
  Every operation ends in at most one call \<^verbatim>\<open>this.service.query(sql, args, { client })\<close>;
  the model returns that call as a value.
\<close>

record query =
  q_stmt :: stmt
  q_args :: "jsval list"
  q_client :: "nat option"

definition query_text :: "crud \<Rightarrow> query \<Rightarrow> string" where
  "query_text svc q = sql_text (render_stmt (schema svc) (table svc) (q_stmt q))"

text \<open>
  The options object of a call; \<open>None\<close> is a key whose type is \<^verbatim>\<open>"undefined"\<close>.
  \<^verbatim>\<open>conceal\<close> is a boolean, as the README and the JSDoc of the bulk operations
  give it; \<^verbatim>\<open>client\<close> is a handle of the session to run on.
\<close>

record query_options =
  o_skip :: "jsval option"
  o_take :: "jsval option"
  o_fields :: "obj option"
  o_sort :: "(string \<times> int) list option"
  o_conceal :: "bool option"
  o_mode :: "string option"
  o_client :: "nat option"

definition no_options :: query_options where
  "no_options = \<lparr>o_skip = None, o_take = None, o_fields = None, o_sort = None,
                  o_conceal = None, o_mode = None, o_client = None\<rparr>"

definition QUERY_MODE_COUNT :: string where
  "QUERY_MODE_COUNT = ''COUNT''"

section \<open>retrieve\<close>

text \<open>
  \<open>None\<close> is the branch that resolves to null without a query. The options are read
  for \<^verbatim>\<open>client\<close> only.
\<close>

definition retrieve :: "crud \<Rightarrow> jsval \<Rightarrow> query_options \<Rightarrow> query option" where
  "retrieve svc ident options =
     (if ident \<noteq> VUndef \<and> ident \<noteq> VNull then
        Some \<lparr>q_stmt =
                 Select Star
                   ([CCmp (idField svc) OpEq 1]
                    @ (if concealDeadResources svc then [CCmp (statusField svc) OpNe 2] else []))
                   None None (LimitLit 1),
              q_args = [ident] @ (if concealDeadResources svc then [VStr (deletedStatus svc)] else []),
              q_client = o_client options\<rparr>
      else None)"

section \<open>find and count\<close>

text \<open>
  The concealment merge on a criteria object, as written in \<^verbatim>\<open>find\<close>,
  \<^verbatim>\<open>bulkUpdate\<close> and \<^verbatim>\<open>bulkDeletePermanently\<close>: it returns the criteria object as
  mutated and the arrays as pushed.
\<close>

definition not_deleted :: "crud \<Rightarrow> jsval" where
  "not_deleted svc = VObj [(''$ne'', VStr (deletedStatus svc))]"

definition conceal_status :: "crud \<Rightarrow> obj \<Rightarrow> cstate \<Rightarrow> obj \<times> cstate" where
  "conceal_status svc criteria st =
     (if truthy (get_prop criteria (statusField svc)) then
        (delete_prop criteria (statusField svc),
         st\<lparr>wheres := wheres st @
               [CBoth (CCmp (statusField svc) OpEq (length (args st) + 1))
                      (CCmp (statusField svc) OpNe (length (args st) + 2))],
            args := args st @ [get_prop criteria (statusField svc), VStr (deletedStatus svc)]\<rparr>)
      else (set_prop criteria (statusField svc) (not_deleted svc), st))"

text \<open>
  The result of \<^verbatim>\<open>find\<close>: the query, and the caller's options and criteria objects
  as the call leaves them (the criteria stays \<open>None\<close> when the caller passed none: the
  merge then builds an object of its own).
\<close>

record find_result =
  fr_query :: query
  fr_options :: query_options
  fr_criteria :: "obj option"
  fr_reports :: "string list"

definition strip_options :: "query_options \<Rightarrow> query_options" where
  "strip_options options =
     options\<lparr>o_skip := None, o_take := None, o_fields := None, o_sort := None,
             o_conceal := None, o_mode := None\<rparr>"

definition find_criteria :: "crud \<Rightarrow> obj option \<Rightarrow> bool \<Rightarrow> obj option \<times> cstate" where
  "find_criteria svc criteria conceal =
     (if concealDeadResources svc \<and> conceal then
        (case criteria of
           Some c \<Rightarrow> (case conceal_status svc c empty_cstate of (c', st) \<Rightarrow> (Some c', st))
         | None \<Rightarrow> (Some [(statusField svc, not_deleted svc)], empty_cstate))
      else (criteria, empty_cstate))"

definition find_projection :: "string option \<Rightarrow> obj option \<Rightarrow> projection" where
  "find_projection mode flds =
     (case flds of
        None \<Rightarrow> if mode = Some QUERY_MODE_COUNT then CountStar else Star
      | Some f \<Rightarrow>
          (let f' = (if get_prop f ''id'' = VUndef then set_prop f ''id'' (VNum 1) else f)
           in Cols (filter (\<lambda>field. truthy (get_prop f' field)) (okeys f'))))"

definition find_crud :: "crud \<Rightarrow> obj option \<Rightarrow> query_options \<Rightarrow> find_result" where
  "find_crud svc criteria options =
     (let skip = o_skip options;
          limit = o_take options;
          sort = o_sort options;
          conceal = (case o_conceal options of None \<Rightarrow> True | Some c \<Rightarrow> c);
          mode = o_mode options;
          flds = (if mode \<noteq> None then None else o_fields options);
          (criteria', st0) = find_criteria svc criteria conceal;
          st = buildCriteria (case criteria' of None \<Rightarrow> [] | Some c \<Rightarrow> c) st0 True;
          pr = find_projection mode flds;
          off = (case skip of None \<Rightarrow> None | Some v \<Rightarrow> Some (length (args st) + 1));
          args1 = args st @ (case skip of None \<Rightarrow> [] | Some v \<Rightarrow> [v]);
          lm = (case limit of None \<Rightarrow> NoLimit | Some v \<Rightarrow> LimitParam (length args1 + 1));
          args2 = args1 @ (case limit of None \<Rightarrow> [] | Some v \<Rightarrow> [v])
      in \<lparr>fr_query = \<lparr>q_stmt = Select pr (wheres st) sort off lm,
                      q_args = args2,
                      q_client = o_client options\<rparr>,
          fr_options = strip_options options,
          fr_criteria = (case criteria of None \<Rightarrow> None | Some c \<Rightarrow> criteria'),
          fr_reports = reports st\<rparr>)"

definition count :: "crud \<Rightarrow> obj option \<Rightarrow> query_options \<Rightarrow> find_result" where
  "count svc criteria options =
     find_crud svc criteria
       (options\<lparr>o_mode := Some QUERY_MODE_COUNT, o_skip := None, o_take := None,
                o_sort := None, o_fields := None\<rparr>)"

section \<open>update and bulkUpdate\<close>

text \<open>
  \<^verbatim>\<open>_applyUpdates(doc, data)\<close>: the keys of \<^verbatim>\<open>_modifiableKeys\<close> whose value in
  \<^verbatim>\<open>data\<close> is truthy are copied onto the row. \<open>None\<close> is no data object.
\<close>

definition applyUpdates :: "crud \<Rightarrow> obj \<Rightarrow> obj option \<Rightarrow> obj" where
  "applyUpdates svc doc data =
     (case data of
        None \<Rightarrow> doc
      | Some d \<Rightarrow>
          fold (\<lambda>property dc.
                  if truthy (get_prop d property) then set_prop dc property (get_prop d property)
                  else dc)
               (modifiableKeys svc) doc)"

text \<open>
  \<^verbatim>\<open>if (this.updatedField) doc[this.updatedField] = new Date()\<close>, the clock reading
  being the argument \<open>now\<close>.
\<close>

definition stamp :: "crud \<Rightarrow> int \<Rightarrow> obj \<Rightarrow> obj" where
  "stamp svc now doc =
     (if str_truthy (updatedField svc) then set_prop doc (the (updatedField svc)) (VDate now)
      else doc)"

text \<open>
  \<^verbatim>\<open>Object.keys(setData).map(field => { args.push(setData[field]); return ... })\<close>:
  the assignments \<^verbatim>\<open>"field" = $i\<close> and the arguments, numbered from 1.
\<close>

definition set_clauses :: "obj \<Rightarrow> (string \<times> nat) list" where
  "set_clauses setData = zip (okeys setData) [1 ..< Suc (length (okeys setData))]"

definition set_args :: "obj \<Rightarrow> jsval list" where
  "set_args setData = map (get_prop setData) (okeys setData)"

definition update_no_id :: string where
  "update_no_id = ''PostgresCrudService: Cannot update row if id field not provided!''"

definition delete_no_id :: string where
  "delete_no_id = ''PostgresCrudService: Cannot delete row if id field not provided!''"

text \<open>
  The result of \<^verbatim>\<open>update\<close>: the caller's row object as the call leaves it, what was
  sent to \<^verbatim>\<open>app.report\<close>, and the outcome, a rejection or the query issued.
\<close>

record update_result =
  ur_doc :: obj
  ur_reports :: "string list"
  ur_outcome :: "error + query"

definition update :: "crud \<Rightarrow> obj \<Rightarrow> obj option \<Rightarrow> query_options \<Rightarrow> int \<Rightarrow> update_result" where
  "update svc doc data options now =
     (let doc1 = applyUpdates svc doc data;
          doc2 = stamp svc now doc1
      in if get_prop doc2 (idField svc) = VUndef then
           \<lparr>ur_doc = doc2, ur_reports = [update_no_id], ur_outcome = Inl UpdateWithoutId\<rparr>
         else
           (let setData = delete_prop (assign_copy doc2) (idField svc);
                args0 = set_args setData
            in \<lparr>ur_doc = doc2,
                ur_reports = [],
                ur_outcome =
                  Inr \<lparr>q_stmt = Update (set_clauses setData)
                                      [CCmp (idField svc) OpEq (length args0 + 1)] True,
                       q_args = args0 @ [get_prop doc2 (idField svc)],
                       q_client = o_client options\<rparr>\<rparr>))"

text \<open>
  The result of the bulk operations: the query, and the caller's criteria and data
  objects as the call leaves them.
\<close>

record bulk_result =
  br_query :: query
  br_criteria :: "obj option"
  br_data :: obj
  br_reports :: "string list"

definition bulkUpdate ::
  "crud \<Rightarrow> obj option \<Rightarrow> obj \<Rightarrow> query_options \<Rightarrow> int \<Rightarrow> bulk_result" where
  "bulkUpdate svc criteria data options now =
     (let conceal = (case o_conceal options of None \<Rightarrow> True | Some c \<Rightarrow> c);
          criteria0 = (case criteria of None \<Rightarrow> [] | Some c \<Rightarrow> c);
          data1 = stamp svc now data;
          setData = delete_prop (assign_copy data1) (idField svc);
          st0 = \<lparr>wheres = [], args = set_args setData, reports = []\<rparr>;
          (criteria1, st1) =
            (if concealDeadResources svc \<and> conceal then conceal_status svc criteria0 st0
             else (criteria0, st0));
          st = buildCriteria criteria1 st1 True
      in \<lparr>br_query = \<lparr>q_stmt = Update (set_clauses setData) (wheres st) False,
                      q_args = args st,
                      q_client = o_client options\<rparr>,
          br_criteria = (case criteria of None \<Rightarrow> None | Some c \<Rightarrow> Some criteria1),
          br_data = data1,
          br_reports = reports st\<rparr>)"

section \<open>delete, bulkDelete, deletePermanently, bulkDeletePermanently\<close>

definition delete :: "crud \<Rightarrow> obj \<Rightarrow> query_options \<Rightarrow> int \<Rightarrow> update_result" where
  "delete svc doc options now =
     update svc (set_prop doc (statusField svc) (VStr (deletedStatus svc))) None options now"

definition bulkDelete :: "crud \<Rightarrow> obj option \<Rightarrow> query_options \<Rightarrow> int \<Rightarrow> bulk_result" where
  "bulkDelete svc criteria options now =
     bulkUpdate svc criteria [(statusField svc, VStr (deletedStatus svc))] options now"

definition deletePermanently :: "crud \<Rightarrow> obj \<Rightarrow> query_options \<Rightarrow> update_result" where
  "deletePermanently svc doc options =
     (if get_prop doc (idField svc) = VUndef then
        \<lparr>ur_doc = doc, ur_reports = [delete_no_id], ur_outcome = Inl DeleteWithoutId\<rparr>
      else
        \<lparr>ur_doc = doc,
         ur_reports = [],
         ur_outcome = Inr \<lparr>q_stmt = Delete [CCmp (idField svc) OpEq 1] True,
                           q_args = [get_prop doc (idField svc)],
                           q_client = o_client options\<rparr>\<rparr>)"

definition bulkDeletePermanently :: "crud \<Rightarrow> obj option \<Rightarrow> query_options \<Rightarrow> bulk_result" where
  "bulkDeletePermanently svc criteria options =
     (let conceal = (case o_conceal options of None \<Rightarrow> True | Some c \<Rightarrow> c);
          criteria0 = (case criteria of None \<Rightarrow> [] | Some c \<Rightarrow> c);
          (criteria1, st1) =
            (if concealDeadResources svc \<and> conceal then conceal_status svc criteria0 empty_cstate
             else (criteria0, empty_cstate));
          st = buildCriteria criteria1 st1 True
      in \<lparr>br_query = \<lparr>q_stmt = Delete (wheres st) False,
                      q_args = args st,
                      q_client = o_client options\<rparr>,
          br_criteria = (case criteria of None \<Rightarrow> None | Some c \<Rightarrow> Some criteria1),
          br_data = [],
          br_reports = reports st\<rparr>)"

section \<open>The database behind the pool\<close>

text \<open>
  What the statements mean is decided by the database, outside this repository. The
  claims about which rows an operation can see need that meaning, so it is written down
  here for the statements the service issues: a table is a list of rows, a comparison
  with NULL (or an unbound value) is unknown, a row is selected when every fragment of
  the WHERE clause is true, and an order is defined between two numbers, two dates and
  two strings only. A statement with ORDER BY is not interpreted.
\<close>

type_synonym row = obj

definition arg_at :: "jsval list \<Rightarrow> nat \<Rightarrow> jsval" where
  "arg_at as n = (if 1 \<le> n \<and> n \<le> length as then as ! (n - 1) else VUndef)"

definition sql_null :: "jsval \<Rightarrow> bool" where
  "sql_null v = (v = VNull \<or> v = VUndef)"

fun str_less :: "string \<Rightarrow> string \<Rightarrow> bool" where
  "str_less [] [] = False"
| "str_less [] (y # ys) = True"
| "str_less (x # xs) [] = False"
| "str_less (x # xs) (y # ys) =
     ((of_char x :: nat) < of_char y \<or> (x = y \<and> str_less xs ys))"

fun val_less :: "jsval \<Rightarrow> jsval \<Rightarrow> bool option" where
  "val_less (VNum a) (VNum b) = Some (a < b)"
| "val_less (VDate a) (VDate b) = Some (a < b)"
| "val_less (VStr a) (VStr b) = Some (str_less a b)"
| "val_less a b = None"

fun sql_cmp :: "cmp \<Rightarrow> jsval \<Rightarrow> jsval \<Rightarrow> bool option" where
  "sql_cmp OpEq a b = (if sql_null a \<or> sql_null b then None else Some (a = b))"
| "sql_cmp OpNe a b = (if sql_null a \<or> sql_null b then None else Some (a \<noteq> b))"
| "sql_cmp OpLt a b = val_less a b"
| "sql_cmp OpGt a b = val_less b a"
| "sql_cmp OpLe a b = map_option Not (val_less b a)"
| "sql_cmp OpGe a b = map_option Not (val_less a b)"

definition lower_char :: "char \<Rightarrow> char" where
  "lower_char c =
     (if 65 \<le> (of_char c :: nat) \<and> (of_char c :: nat) \<le> 90 then char_of ((of_char c :: nat) + 32)
      else c)"

fun lower_val :: "jsval \<Rightarrow> jsval" where
  "lower_val (VStr s) = VStr (map lower_char s)"
| "lower_val v = v"

definition and3 :: "bool option \<Rightarrow> bool option \<Rightarrow> bool option" where
  "and3 a b =
     (if a = Some False \<or> b = Some False then Some False
      else if a = Some True \<and> b = Some True then Some True
      else None)"

definition in3 :: "bool option list \<Rightarrow> bool option" where
  "in3 rs =
     (if Some True \<in> set rs then Some True
      else if None \<in> set rs then None
      else Some False)"

fun eval_clause :: "row \<Rightarrow> jsval list \<Rightarrow> clause \<Rightarrow> bool option" where
  "eval_clause r as (CCmp f c n) = sql_cmp c (get_prop r f) (arg_at as n)"
| "eval_clause r as (CLower f c n) = sql_cmp c (lower_val (get_prop r f)) (lower_val (arg_at as n))"
| "eval_clause r as (CIn f neg ns) =
     (let res = in3 (map (\<lambda>n. sql_cmp OpEq (get_prop r f) (arg_at as n)) ns)
      in if neg then map_option Not res else res)"
| "eval_clause r as (CBoth a b) = and3 (eval_clause r as a) (eval_clause r as b)"

definition matches :: "row \<Rightarrow> jsval list \<Rightarrow> clause list \<Rightarrow> bool" where
  "matches r as wh = list_all (\<lambda>c. eval_clause r as c = Some True) wh"

record db_result =
  rows :: "row list"
  rowCount :: nat

definition apply_sets :: "(string \<times> nat) list \<Rightarrow> jsval list \<Rightarrow> row \<Rightarrow> row" where
  "apply_sets sets as r = fold (\<lambda>(f, n) r'. set_prop r' f (arg_at as n)) sets r"

definition project :: "projection \<Rightarrow> row list \<Rightarrow> row list" where
  "project pr rs =
     (case pr of
        Star \<Rightarrow> rs
      | CountStar \<Rightarrow> [[(''count'', VNum (int (length rs)))]]
      | Cols cs \<Rightarrow> map (\<lambda>r. map (\<lambda>c. (c, get_prop r c)) cs) rs)"

definition param_nat :: "jsval list \<Rightarrow> nat \<Rightarrow> nat option" where
  "param_nat as n = (case arg_at as n of VNum i \<Rightarrow> if 0 \<le> i then Some (nat i) else None | _ \<Rightarrow> None)"

text \<open>
  Running one statement on a table: the result and the table afterwards, \<open>None\<close>
  where the statement is not interpreted or the database would reject it.
\<close>

fun exec_stmt :: "stmt \<Rightarrow> jsval list \<Rightarrow> row list \<Rightarrow> (db_result \<times> row list) option" where
  "exec_stmt (Select pr wh srt off l) as tb =
     (case srt of
        Some s \<Rightarrow> None
      | None \<Rightarrow>
          (let sel = filter (\<lambda>r. matches r as wh) tb;
               skipped = (case off of None \<Rightarrow> Some sel
                          | Some n \<Rightarrow> map_option (\<lambda>k. drop k sel) (param_nat as n))
           in case skipped of
                None \<Rightarrow> None
              | Some rs \<Rightarrow>
                  (case (case l of NoLimit \<Rightarrow> Some rs
                         | LimitLit k \<Rightarrow> Some (take k rs)
                         | LimitParam n \<Rightarrow> map_option (\<lambda>k. take k rs) (param_nat as n)) of
                     None \<Rightarrow> None
                   | Some rs' \<Rightarrow>
                       Some (\<lparr>rows = project pr rs', rowCount = length (project pr rs')\<rparr>, tb))))"
| "exec_stmt (Update sets wh ret) as tb =
     (let tb' = map (\<lambda>r. if matches r as wh then apply_sets sets as r else r) tb;
          hit = map (apply_sets sets as) (filter (\<lambda>r. matches r as wh) tb)
      in Some (\<lparr>rows = (if ret then hit else []), rowCount = length hit\<rparr>, tb'))"
| "exec_stmt (Delete wh ret) as tb =
     (let hit = filter (\<lambda>r. matches r as wh) tb
      in Some (\<lparr>rows = (if ret then hit else []), rowCount = length hit\<rparr>,
               filter (\<lambda>r. \<not> matches r as wh) tb))"

text \<open>\<^verbatim>\<open>.then(res => res.rows[0] || null)\<close> of \<^verbatim>\<open>retrieve\<close>, on a table.\<close>

definition first_or_null :: "db_result \<Rightarrow> jsval" where
  "first_or_null res = (case rows res of [] \<Rightarrow> VNull | r # rs \<Rightarrow> VObj r)"

definition run_retrieve :: "crud \<Rightarrow> jsval \<Rightarrow> query_options \<Rightarrow> row list \<Rightarrow> jsval option" where
  "run_retrieve svc ident options tb =
     (case retrieve svc ident options of
        None \<Rightarrow> Some VNull
      | Some q \<Rightarrow> map_option (\<lambda>(res, tb'). first_or_null res) (exec_stmt (q_stmt q) (q_args q) tb))"

text \<open>\<^verbatim>\<open>delete\<close> on a table: the table afterwards, \<open>None\<close> when the call rejects.\<close>

definition run_delete :: "crud \<Rightarrow> obj \<Rightarrow> query_options \<Rightarrow> int \<Rightarrow> row list \<Rightarrow> row list option" where
  "run_delete svc doc options now tb =
     (case ur_outcome (delete svc doc options now) of
        Inl e \<Rightarrow> None
      | Inr q \<Rightarrow> map_option snd (exec_stmt (q_stmt q) (q_args q) tb))"

section \<open>The service of the test suite\<close>

text \<open>
  The instance the tests work with: schema \<^verbatim>\<open>crud_test\<close>, table \<^verbatim>\<open>user\<close>, every
  other option left to its default.
\<close>

definition default_options :: crud_options where
  "default_options =
     \<lparr>opt_service = Some 0, opt_schema = Some ''crud_test'', opt_table = Some ''user'',
      opt_idField = None, opt_statusField = None, opt_updatedField = None,
      opt_createRetryCount = None, opt_modifiableKeys = None, opt_deletedStatus = None,
      opt_concealDeadResources = None\<rparr>"

definition default_service :: crud where
  "default_service =
     \<lparr>service = 0, schema = ''crud_test'', table = ''user'', idField = ''id'',
      statusField = ''status'', updatedField = Some ''updated'', createRetryCount = 3,
      modifiableKeys = [], deletedStatus = ''dead'', concealDeadResources = True\<rparr>"

text \<open>The assignments of an UPDATE statement.\<close>

fun stmt_sets :: "stmt \<Rightarrow> (string \<times> nat) list" where
  "stmt_sets (Select pr wh srt off l) = []"
| "stmt_sets (Update sets wh ret) = sets"
| "stmt_sets (Delete wh ret) = []"

text \<open>The instance after \<^verbatim>\<open>crud.updatedField = null\<close>, as the tests disable the stamp.\<close>

definition unstamped_service :: crud where
  "unstamped_service = default_service\<lparr>updatedField := None\<rparr>"

text \<open>A service whose \<^verbatim>\<open>updatedField\<close> is its id field.\<close>

definition id_stamped_service :: crud where
  "id_stamped_service = default_service\<lparr>updatedField := Some ''id''\<rparr>"

text \<open>A service whose patches may set the two name columns, as in the tests.\<close>

definition patching_service :: crud where
  "patching_service = default_service\<lparr>modifiableKeys := [''first_name'', ''last_name'']\<rparr>"

section \<open>Placeholders and arguments\<close>

text \<open>
  The placeholders of a list of WHERE fragments, in the order of the text; and the
  relation between the arrays before and after a piece of the compiler ran: both have
  only grown, and the placeholders of the new fragments are the positions of the new
  arguments, in order.
\<close>

definition clause_params :: "clause list \<Rightarrow> nat list" where
  "clause_params ws = concat (map (\<lambda>c. placeholders (render_clause c)) ws)"

definition extends :: "cstate \<Rightarrow> cstate \<Rightarrow> bool" where
  "extends st st' =
     (\<exists>ws as. wheres st' = wheres st @ ws \<and> args st' = args st @ as
        \<and> clause_params ws = [Suc (length (args st)) ..< Suc (length (args st'))])"

text \<open>The OFFSET and LIMIT of a statement.\<close>

fun stmt_offset :: "stmt \<Rightarrow> nat option" where
  "stmt_offset (Select pr wh srt off l) = off"
| "stmt_offset (Update sets wh ret) = None"
| "stmt_offset (Delete wh ret) = None"

fun stmt_limit :: "stmt \<Rightarrow> lim" where
  "stmt_limit (Select pr wh srt off l) = l"
| "stmt_limit (Update sets wh ret) = NoLimit"
| "stmt_limit (Delete wh ret) = NoLimit"

text \<open>The arrays of \<^verbatim>\<open>find\<close> once the criteria are compiled, before pagination.\<close>

definition find_compiled :: "crud \<Rightarrow> obj option \<Rightarrow> query_options \<Rightarrow> cstate" where
  "find_compiled svc criteria options =
     buildCriteria
       (case fst (find_criteria svc criteria (case o_conceal options of None \<Rightarrow> True | Some c \<Rightarrow> c)) of
          None \<Rightarrow> [] | Some c \<Rightarrow> c)
       (snd (find_criteria svc criteria (case o_conceal options of None \<Rightarrow> True | Some c \<Rightarrow> c)))
       True"

text \<open>A paginated query on two criteria, as in the pagination tests.\<close>

definition paged_criteria :: obj where
  "paged_criteria = [(''status'', VStr ''active''), (''id'', VArr [VStr ''a'', VStr ''b''])]"

definition paged_options :: query_options where
  "paged_options = no_options\<lparr>o_skip := Some (VNum 0), o_take := Some (VNum 2)\<rparr>"

section \<open>Fragments that exclude deleted rows\<close>

text \<open>
  A fragment excludes the rows whose status is \<open>d\<close> when it is, or holds as a
  conjunct, the comparison \<^verbatim>\<open>"status" != $n\<close> with \<open>d\<close> bound to \<^verbatim>\<open>$n\<close>; the
  arrays hide the deleted rows when one of the fragments excludes the deleted status.
\<close>

fun excludes :: "string \<Rightarrow> jsval \<Rightarrow> jsval list \<Rightarrow> clause \<Rightarrow> bool" where
  "excludes sf d as (CCmp f c n) = (f = sf \<and> c = OpNe \<and> arg_at as n = d)"
| "excludes sf d as (CLower f c n) = False"
| "excludes sf d as (CIn f neg ns) = False"
| "excludes sf d as (CBoth a b) = (excludes sf d as a \<or> excludes sf d as b)"

definition hidden :: "crud \<Rightarrow> cstate \<Rightarrow> bool" where
  "hidden svc st =
     list_ex (excludes (statusField svc) (VStr (deletedStatus svc)) (args st)) (wheres st)"

text \<open>
  \<^verbatim>\<open>criteria || {}\<close>, and the arrays of \<^verbatim>\<open>bulkUpdate\<close> when its SET list is
  built: no fragment yet, the arguments of the assignments.
\<close>

definition or_empty :: "obj option \<Rightarrow> obj" where
  "or_empty criteria = (case criteria of None \<Rightarrow> [] | Some c \<Rightarrow> c)"

definition bulk_sets :: "crud \<Rightarrow> obj \<Rightarrow> int \<Rightarrow> cstate" where
  "bulk_sets svc data now =
     \<lparr>wheres = [], args = set_args (delete_prop (assign_copy (stamp svc now data)) (idField svc)),
      reports = []\<rparr>"

text \<open>A deleted row, and the options \<^verbatim>\<open>{ conceal: false }\<close>.\<close>

definition dead_row :: row where
  "dead_row = [(''id'', VStr ''dead''), (''status'', VStr ''dead'')]"

definition unconcealed :: query_options where
  "unconcealed = no_options\<lparr>o_conceal := Some False\<rparr>"

section \<open>delete followed by retrieve\<close>

text \<open>
  A table of one live row, and the table after that row was deleted at time 42.
\<close>

definition active_table :: "row list" where
  "active_table = [[(''id'', VStr ''c''), (''status'', VStr ''active''), (''updated'', VDate 1)]]"

definition deleted_table :: "row list" where
  "deleted_table = [[(''id'', VStr ''c''), (''status'', VStr ''dead''), (''updated'', VDate 42)]]"

text \<open>
  A row of the table carries the identifier when the database finds its id column equal
  to it.
\<close>

definition same_id :: "crud \<Rightarrow> jsval \<Rightarrow> row \<Rightarrow> bool" where
  "same_id svc ident r = (sql_cmp OpEq (get_prop r (idField svc)) ident = Some True)"

text \<open>The row object that \<^verbatim>\<open>delete\<close> hands to \<^verbatim>\<open>update\<close>, and the SET data of the UPDATE.\<close>

definition deleted_doc :: "crud \<Rightarrow> obj \<Rightarrow> int \<Rightarrow> obj" where
  "deleted_doc svc doc now =
     stamp svc now (set_prop doc (statusField svc) (VStr (deletedStatus svc)))"

definition deleted_sets :: "crud \<Rightarrow> obj \<Rightarrow> int \<Rightarrow> obj" where
  "deleted_sets svc doc now = delete_prop (assign_copy (deleted_doc svc doc now)) (idField svc)"

text \<open>
  What a soft delete of the identifier does to one stored row: a row that carries the
  identifier keeps its id and has the deleted status, any other row is as it was.
\<close>

definition soft_deleted :: "crud \<Rightarrow> jsval \<Rightarrow> row \<Rightarrow> row \<Rightarrow> bool" where
  "soft_deleted svc ident r r' =
     (if same_id svc ident r
      then get_prop r' (statusField svc) = VStr (deletedStatus svc)
           \<and> get_prop r' (idField svc) = get_prop r (idField svc)
      else r' = r)"

text \<open>The service with \<^verbatim>\<open>concealDeadResources: false\<close>.\<close>

definition open_service :: crud where
  "open_service = default_service\<lparr>concealDeadResources := False\<rparr>"

section \<open>Objects\<close>

lemma get_set_same: "get_prop (set_prop ob k v) k = v"
  by (simp add: get_prop_def set_prop_def update_conv')

lemma get_set_other: "k \<noteq> k' \<Longrightarrow> get_prop (set_prop ob k' v) k = get_prop ob k"
  by (simp add: get_prop_def set_prop_def update_conv')

lemma get_delete_same: "get_prop (delete_prop ob k) k = VUndef"
  by (simp add: get_prop_def delete_prop_def delete_conv')

lemma get_delete_other: "k \<noteq> k' \<Longrightarrow> get_prop (delete_prop ob k') k = get_prop ob k"
  by (simp add: get_prop_def delete_prop_def delete_conv')

lemma set_okeys: "set (okeys ob) = fst ` set ob"
  using clearjunk_keys_set [of ob] by (simp add: okeys_def)

lemma distinct_okeys: "distinct (okeys ob)"
  by (simp add: okeys_def distinct_clearjunk)

lemma get_undef_notin: "k \<notin> fst ` set ob \<Longrightarrow> get_prop ob k = VUndef"
  using map_of_eq_None_iff [of ob k] by (simp add: get_prop_def)

lemma get_def_in: "get_prop ob k \<noteq> VUndef \<Longrightarrow> k \<in> set (okeys ob)"
  using get_undef_notin set_okeys by blast

lemma map_of_keyed: "map_of (map (\<lambda>k. (k, f k)) ks) k = (if k \<in> set ks then Some (f k) else None)"
  by (induction ks) auto

lemma get_assign_copy: "get_prop (assign_copy ob) k = get_prop ob k"
  using get_undef_notin [of k ob]
  by (simp add: assign_copy_def get_prop_def [of "map _ _"] map_of_keyed set_okeys)

lemma okeys_assign_copy: "okeys (assign_copy ob) = okeys ob"
  by (simp add: assign_copy_def okeys_def [of "map _ _"] distinct_clearjunk_id distinct_okeys comp_def)

lemma applyUpdates_other:
  "k \<notin> set (modifiableKeys svc) \<Longrightarrow> get_prop (applyUpdates svc doc data) k = get_prop doc k"
proof (cases data)
  case None
  then show ?thesis by (simp add: applyUpdates_def)
next
  case (Some d)
  have "k \<notin> set ks \<Longrightarrow>
        get_prop (fold (\<lambda>property dc. if truthy (get_prop d property)
                          then set_prop dc property (get_prop d property) else dc) ks dc0) k
        = get_prop dc0 k" for ks dc0
    by (induction ks arbitrary: dc0) (auto simp: get_set_other)
  with Some show "k \<notin> set (modifiableKeys svc) \<Longrightarrow> ?thesis"
    by (simp add: applyUpdates_def)
qed

lemma applyUpdates_patched:
  assumes "k \<in> set (modifiableKeys svc)" and "truthy (get_prop d k)"
  shows "get_prop (applyUpdates svc doc (Some d)) k = get_prop d k"
proof -
  let ?step = "\<lambda>property dc. if truthy (get_prop d property)
                          then set_prop dc property (get_prop d property) else dc"
  have step: "get_prop dc0 k = get_prop d k \<Longrightarrow> get_prop (?step a dc0) k = get_prop d k" for a dc0
    by (cases "a = k") (auto simp: get_set_other get_set_same)
  have keep: "get_prop dc0 k = get_prop d k \<Longrightarrow> get_prop (fold ?step ks dc0) k = get_prop d k" for ks dc0
  proof (induction ks arbitrary: dc0)
    case Nil
    then show ?case by simp
  next
    case (Cons a ks)
    show ?case using Cons.IH [OF step [OF Cons.prems]] by simp
  qed
  have "k \<in> set ks \<Longrightarrow> get_prop (fold ?step ks dc0) k = get_prop d k" for ks dc0
  proof (induction ks arbitrary: dc0)
    case Nil
    then show ?case by simp
  next
    case (Cons a ks)
    show ?case
    proof (cases "a = k")
      case True
      then show ?thesis using assms(2) by (simp add: keep get_set_same)
    next
      case False
      then show ?thesis using Cons by auto
    qed
  qed
  then show ?thesis using assms(1) by (simp add: applyUpdates_def)
qed

lemma constructor_default: "constructor (Some default_options) = Inr default_service"
  by (simp add: constructor_def default_options_def default_service_def str_truthy_def str_or_def)

section \<open>Range operators\<close>

text \<open>
  An operator object with one range operator whose operand is truthy compiles to one
  comparison and one argument.
\<close>

lemma gt_truthy:
  "truthy v \<Longrightarrow> build_field field (VObj [(''$gt'', v)]) equality st =
     push (CCmp field OpGt (length (args st) + 1)) v st"
  by (simp add: range_ops_def op_key_def get_prop_def report_unmatched_def push_def)

lemma gte_truthy:
  "truthy v \<Longrightarrow> build_field field (VObj [(''$gte'', v)]) equality st =
     push (CCmp field OpGe (length (args st) + 1)) v st"
  by (simp add: range_ops_def op_key_def get_prop_def report_unmatched_def push_def)

lemma lt_truthy:
  "truthy v \<Longrightarrow> build_field field (VObj [(''$lt'', v)]) equality st =
     push (CCmp field OpLt (length (args st) + 1)) v st"
  by (simp add: range_ops_def op_key_def get_prop_def report_unmatched_def push_def)

lemma lte_truthy:
  "truthy v \<Longrightarrow> build_field field (VObj [(''$lte'', v)]) equality st =
     push (CCmp field OpLe (length (args st) + 1)) v st"
  by (simp add: range_ops_def op_key_def get_prop_def report_unmatched_def push_def)

text \<open>
  C5. Compiling an operator object with a range operator appends exactly one clause and
  one argument, for every operand. The source tests the operand with
  \<^verbatim>\<open>if (value.$gt)\<close>, so a falsy operand is skipped: \<^verbatim>\<open>{ age: { $gt: 0 } }\<close> compiles
  to no clause and no argument, and the compiler reports that no modifier was set.
\<close>

theorem C5_gt_zero_emits_nothing:
  "build_field ''age'' (VObj [(''$gt'', VNum 0)]) True empty_cstate
     = \<lparr>wheres = [], args = [], reports = [no_modifier]\<rparr>"
  by (simp add: range_ops_def op_key_def get_prop_def report_unmatched_def empty_cstate_def)

section \<open>The concealment merge\<close>

text \<open>
  What the merge does with a truthy status entry, and with none: the pair of
  comparisons replaces the entry, or the entry \<^verbatim>\<open>{ $ne: deletedStatus }\<close> is added.
\<close>

lemma merge_truthy_status:
  "truthy (get_prop c (statusField svc)) \<Longrightarrow>
   conceal_status svc c empty_cstate =
     (delete_prop c (statusField svc),
      \<lparr>wheres = [CBoth (CCmp (statusField svc) OpEq 1) (CCmp (statusField svc) OpNe 2)],
       args = [get_prop c (statusField svc), VStr (deletedStatus svc)],
       reports = []\<rparr>)"
  by (simp add: conceal_status_def empty_cstate_def)

lemma merge_no_status:
  "get_prop c (statusField svc) = VUndef \<Longrightarrow>
   conceal_status svc c st = (set_prop c (statusField svc) (not_deleted svc), st)"
  by (simp add: conceal_status_def)

text \<open>
  C4. With concealment active, a criteria that constrains the status field to a scalar
  is rewritten into the pair status = X AND status != deleted. The source tests
  \<^verbatim>\<open>if (criteria[this.statusField])\<close>, so a falsy scalar takes the other branch:
  \<^verbatim>\<open>find({ status: 0 })\<close> overwrites the caller's entry and selects on
  \<^verbatim>\<open>"status" != $1\<close> alone.
\<close>

theorem C4_falsy_status_is_dropped:
  "fr_query (find_crud default_service (Some [(''status'', VNum 0)]) no_options)
     = \<lparr>q_stmt = Select Star [CCmp ''status'' OpNe 1] None None NoLimit,
        q_args = [VStr ''dead''], q_client = None\<rparr>
   \<and> fr_criteria (find_crud default_service (Some [(''status'', VNum 0)]) no_options)
     = Some [(''status'', VObj [(''$ne'', VStr ''dead'')])]"
  by (simp add: find_crud_def find_criteria_def conceal_status_def buildCriteria_def okeys_def
      get_prop_def set_prop_def not_deleted_def default_service_def no_options_def
      empty_cstate_def range_ops_def op_key_def report_unmatched_def push_def
      find_projection_def)

section \<open>Projection\<close>

text \<open>
  The columns of a field selection: the keys with a truthy value, and the key
  \<^verbatim>\<open>id\<close> when the selection does not mention it.
\<close>

lemma truthy_keys: "set (filter (\<lambda>k. truthy (get_prop f k)) (okeys f)) = {k. truthy (get_prop f k)}"
proof -
  have "truthy (get_prop f k) \<Longrightarrow> k \<in> set (okeys f)" for k
    by (rule get_def_in) auto
  then show ?thesis by auto
qed

lemma projection_columns:
  "\<exists>cs. find_projection mode (Some f) = Cols cs
        \<and> set cs = {k. truthy (get_prop f k)}
                   \<union> (if get_prop f ''id'' = VUndef then {''id''} else {})"
proof (cases "get_prop f ''id'' = VUndef")
  case True
  have "truthy (get_prop (set_prop f ''id'' (VNum 1)) k)
          = (k = ''id'' \<or> truthy (get_prop f k))" for k
    using True by (cases "k = ''id''") (simp_all add: get_set_same get_set_other)
  then have "{k. truthy (get_prop (set_prop f ''id'' (VNum 1)) k)}
               = {k. truthy (get_prop f k)} \<union> {''id''}"
    by auto
  with True show ?thesis
    by (simp add: find_projection_def Let_def truthy_keys del: set_filter)
next
  case False
  then show ?thesis
    by (simp add: find_projection_def Let_def truthy_keys del: set_filter)
qed

text \<open>
  C7. The projection of \<^verbatim>\<open>find\<close> holds the columns whose value in the field
  selection is truthy, and the configured id field is forced in unless the selection
  excludes it. The source forces the literal key \<^verbatim>\<open>id\<close>: on a service whose id field
  is \<^verbatim>\<open>uid\<close>, the selection \<^verbatim>\<open>{ username: 1 }\<close> projects \<^verbatim>\<open>"username", "id"\<close>.
\<close>

theorem C7_hard_coded_id_column:
  "q_stmt (fr_query (find_crud (default_service\<lparr>idField := ''uid''\<rparr>) (Some [])
      (no_options\<lparr>o_fields := Some [(''username'', VNum 1)], o_conceal := Some False\<rparr>)))
     = Select (Cols [''username'', ''id'']) [] None None NoLimit"
  by (simp add: find_crud_def find_criteria_def buildCriteria_def okeys_def
      get_prop_def set_prop_def default_service_def no_options_def
      empty_cstate_def find_projection_def)

section \<open>update: the stamp and the id check\<close>

lemma stamp_other: "updatedField svc \<noteq> Some k \<Longrightarrow> get_prop (stamp svc now doc) k = get_prop doc k"
  by (cases "updatedField svc") (auto simp: stamp_def str_truthy_def get_set_other)

lemma stamp_same:
  "str_truthy (updatedField svc) \<Longrightarrow> get_prop (stamp svc now doc) (the (updatedField svc)) = VDate now"
  by (simp add: stamp_def get_set_same)

lemma set_clauses_nth:
  assumes "i < length (okeys sd)"
  shows "map_of (set_clauses sd) (okeys sd ! i) = Some (Suc i)"
proof -
  have "map_of (zip (okeys sd) [1 ..< Suc (length (okeys sd))]) (okeys sd ! i)
          = Some ([1 ..< Suc (length (okeys sd))] ! i)"
    using assms by (intro map_of_zip_nth) (simp_all add: distinct_okeys del: upt_Suc)
  then show ?thesis using assms by (simp add: set_clauses_def del: upt_Suc)
qed

lemma set_args_nth:
  assumes "i < length (okeys sd)"
  shows "arg_at (set_args sd @ rest) (Suc i) = get_prop sd (okeys sd ! i)"
  using assms by (simp add: arg_at_def set_args_def nth_append)

lemma set_clause_arg:
  assumes "k \<in> set (okeys sd)"
  shows "\<exists>n. (k, n) \<in> set (set_clauses sd) \<and> arg_at (set_args sd @ rest) n = get_prop sd k"
proof -
  from assms obtain i where i: "i < length (okeys sd)" "okeys sd ! i = k"
    by (auto simp: in_set_conv_nth)
  have "(k, Suc i) \<in> set (set_clauses sd)"
    using set_clauses_nth [OF i(1)] i(2) by (auto dest: map_of_SomeD)
  moreover have "arg_at (set_args sd @ rest) (Suc i) = get_prop sd k"
    using set_args_nth [OF i(1)] i(2) by simp
  ultimately show ?thesis by blast
qed


lemma update_query:
  "get_prop (stamp svc now (applyUpdates svc doc data)) (idField svc) \<noteq> VUndef \<Longrightarrow>
   ur_outcome (update svc doc data options now) =
     Inr \<lparr>q_stmt = Update (set_clauses (delete_prop (assign_copy (stamp svc now (applyUpdates svc doc data))) (idField svc)))
                 [CCmp (idField svc) OpEq
                   (length (set_args (delete_prop (assign_copy (stamp svc now (applyUpdates svc doc data))) (idField svc))) + 1)] True,
          q_args = set_args (delete_prop (assign_copy (stamp svc now (applyUpdates svc doc data))) (idField svc))
                   @ [get_prop (stamp svc now (applyUpdates svc doc data)) (idField svc)],
          q_client = o_client options\<rparr>"
  by (simp add: update_def Let_def)

lemma update_rejects:
  "get_prop (stamp svc now (applyUpdates svc doc data)) (idField svc) = VUndef \<Longrightarrow>
   ur_outcome (update svc doc data options now) = Inl UpdateWithoutId
   \<and> ur_reports (update svc doc data options now) = [update_no_id]"
  by (simp add: update_def Let_def)

lemma update_doc: "ur_doc (update svc doc data options now) = stamp svc now (applyUpdates svc doc data)"
  by (simp add: update_def Let_def)

lemma bulkUpdate_data: "br_data (bulkUpdate svc criteria pd options now) = stamp svc now pd"
  by (simp add: bulkUpdate_def Let_def split: prod.split)

lemma str_or_truthy: "d \<noteq> [] \<Longrightarrow> str_or s d \<noteq> []"
  by (cases s) (auto simp: str_or_def)

lemma constructor_fields:
  assumes "constructor copts = Inr svc"
  shows "\<exists>opts :: crud_options. updatedField svc = Some (str_or (opt_updatedField opts) ''updated'')
              \<and> deletedStatus svc = str_or (opt_deletedStatus opts) ''dead''"
proof (cases copts)
  case None
  with assms show ?thesis by (simp add: constructor_def)
next
  case (Some opts)
  show ?thesis
  proof (cases "opt_service opts")
    case None
    with Some assms show ?thesis by (simp add: constructor_def)
  next
    case (Some srv)
    with \<open>copts = Some opts\<close> assms
    have "updatedField svc = Some (str_or (opt_updatedField opts) ''updated'')
          \<and> deletedStatus svc = str_or (opt_deletedStatus opts) ''dead''"
      by (auto simp: constructor_def split: if_splits)
    then show ?thesis by blast
  qed
qed

lemma constructor_updatedField:
  assumes "constructor copts = Inr svc"
  shows "str_truthy (updatedField svc)"
proof -
  from constructor_fields [OF assms] obtain opts :: crud_options
    where "updatedField svc = Some (str_or (opt_updatedField opts) ''updated'')"
    by blast
  moreover have "str_or (opt_updatedField opts) ''updated'' \<noteq> []"
    by (rule str_or_truthy) simp
  ultimately show ?thesis by (simp add: str_truthy_def)
qed

lemma constructor_deletedStatus:
  assumes "constructor copts = Inr svc"
  shows "deletedStatus svc \<noteq> []"
proof -
  from constructor_fields [OF assms] obtain opts :: crud_options
    where "deletedStatus svc = str_or (opt_deletedStatus opts) ''dead''"
    by blast
  moreover have "str_or (opt_deletedStatus opts) ''dead'' \<noteq> []"
    by (rule str_or_truthy) simp
  ultimately show ?thesis by simp
qed

text \<open>
  C8, as the spec states it. \<^verbatim>\<open>update\<close> rejects every row that lacks the id field.
  The check comes after the patch is applied: with the id field among the modifiable
  keys, a patch that carries an id puts it on the row, and the UPDATE is issued.
\<close>

theorem C8_patch_supplies_id:
  "get_prop [(''username'', VStr ''bogus'')] (idField (default_service\<lparr>modifiableKeys := [''id'']\<rparr>)) = VUndef
   \<and> ur_outcome (update (default_service\<lparr>modifiableKeys := [''id'']\<rparr>)
        [(''username'', VStr ''bogus'')] (Some [(''id'', VStr ''a'')]) no_options 42)
     = Inr \<lparr>q_stmt = Update [(''username'', 1), (''updated'', 2)] [CCmp ''id'' OpEq 3] True,
            q_args = [VStr ''bogus'', VDate 42, VStr ''a''], q_client = None\<rparr>"
  by (simp add: default_service_def update_def applyUpdates_def stamp_def str_truthy_def
      set_prop_def get_prop_def delete_prop_def assign_copy_def okeys_def set_clauses_def
      set_args_def no_options_def Let_def)

text \<open>
  C8, amended. \<^verbatim>\<open>update\<close> rejects, with its error and without a query, every row that
  lacks the id field once the patch and the stamp are applied; that is so for every row
  lacking the id field when the id field is neither a modifiable key nor the
  \<^verbatim>\<open>updatedField\<close>. \<^verbatim>\<open>deletePermanently\<close> rejects every row that lacks the id
  field, without a query, and leaves the row as it was.
\<close>

theorem C8_missing_id_is_rejected_locally:
  "(get_prop (stamp svc now (applyUpdates svc doc data)) (idField svc) = VUndef \<longrightarrow>
      ur_outcome (update svc doc data options now) = Inl UpdateWithoutId
      \<and> ur_reports (update svc doc data options now) = [update_no_id])
   \<and> (get_prop doc (idField svc) = VUndef \<and> idField svc \<notin> set (modifiableKeys svc)
        \<and> updatedField svc \<noteq> Some (idField svc) \<longrightarrow>
      ur_outcome (update svc doc data options now) = Inl UpdateWithoutId
      \<and> ur_reports (update svc doc data options now) = [update_no_id])
   \<and> (get_prop doc (idField svc) = VUndef \<longrightarrow>
      ur_outcome (deletePermanently svc doc options) = Inl DeleteWithoutId
      \<and> ur_reports (deletePermanently svc doc options) = [delete_no_id]
      \<and> ur_doc (deletePermanently svc doc options) = doc)"
proof (intro conjI impI)
  assume "get_prop (stamp svc now (applyUpdates svc doc data)) (idField svc) = VUndef"
  from update_rejects [OF this]
  show "ur_outcome (update svc doc data options now) = Inl UpdateWithoutId"
    and "ur_reports (update svc doc data options now) = [update_no_id]"
    by simp_all
next
  assume h: "get_prop doc (idField svc) = VUndef \<and> idField svc \<notin> set (modifiableKeys svc)
        \<and> updatedField svc \<noteq> Some (idField svc)"
  then have "get_prop (stamp svc now (applyUpdates svc doc data)) (idField svc) = VUndef"
    by (simp add: stamp_other applyUpdates_other)
  from update_rejects [OF this]
  show "ur_outcome (update svc doc data options now) = Inl UpdateWithoutId"
    and "ur_reports (update svc doc data options now) = [update_no_id]"
    by simp_all
next
  assume "get_prop doc (idField svc) = VUndef"
  then show "ur_outcome (deletePermanently svc doc options) = Inl DeleteWithoutId"
    and "ur_reports (deletePermanently svc doc options) = [delete_no_id]"
    and "ur_doc (deletePermanently svc doc options) = doc"
    by (simp_all add: deletePermanently_def)
qed

theorem C8_witness:
  "get_prop (stamp default_service 42 (applyUpdates default_service [(''username'', VStr ''bogus'')] None))
      (idField default_service) = VUndef
   \<and> get_prop [(''username'', VStr ''bogus'')] (idField default_service) = VUndef
   \<and> idField default_service \<notin> set (modifiableKeys default_service)
   \<and> updatedField default_service \<noteq> Some (idField default_service)
   \<and> ur_outcome (update default_service [(''username'', VStr ''bogus'')] None no_options 42)
       = Inl UpdateWithoutId
   \<and> ur_reports (update default_service [(''username'', VStr ''bogus'')] None no_options 42)
       = [update_no_id]
   \<and> ur_outcome (deletePermanently default_service [(''username'', VStr ''bogus'')] no_options)
       = Inl DeleteWithoutId
   \<and> ur_reports (deletePermanently default_service [(''username'', VStr ''bogus'')] no_options)
       = [delete_no_id]
   \<and> ur_doc (deletePermanently default_service [(''username'', VStr ''bogus'')] no_options)
       = [(''username'', VStr ''bogus'')]"
proof -
  have a: "get_prop [(''username'', VStr ''bogus'')] (idField default_service) = VUndef"
    and b: "idField default_service \<notin> set (modifiableKeys default_service)"
    and c: "updatedField default_service \<noteq> Some (idField default_service)"
    by (simp_all add: default_service_def get_prop_def)
  have d: "get_prop (stamp default_service 42
              (applyUpdates default_service [(''username'', VStr ''bogus'')] None))
            (idField default_service) = VUndef"
    using a b c by (simp add: stamp_other applyUpdates_other)
  show ?thesis
    using C8_missing_id_is_rejected_locally
      [of default_service 42 "[(''username'', VStr ''bogus'')]" None no_options] a b c d
    by simp
qed

text \<open>
  C10. \<^verbatim>\<open>update\<close> applies the patch and the stamp to the caller's row before it checks
  the id field: when it rejects for the missing id, the row it leaves behind is the row
  with the patch and the stamp applied. It carries the current time under the
  \<^verbatim>\<open>updatedField\<close>, and every modifiable key that the patch gives a truthy value.
\<close>

theorem C10_row_mutated_before_id_check:
  assumes "ur_outcome (update svc doc data options now) = Inl UpdateWithoutId"
  shows "ur_doc (update svc doc data options now) = stamp svc now (applyUpdates svc doc data)
     \<and> (str_truthy (updatedField svc) \<longrightarrow>
          get_prop (ur_doc (update svc doc data options now)) (the (updatedField svc)) = VDate now)
     \<and> (\<forall>d k. data = Some d \<and> k \<in> set (modifiableKeys svc) \<and> truthy (get_prop d k)
               \<and> updatedField svc \<noteq> Some k \<longrightarrow>
             get_prop (ur_doc (update svc doc data options now)) k = get_prop d k)"
  by (auto simp: update_doc stamp_same stamp_other applyUpdates_patched)

theorem C10_witness:
  "ur_outcome (update patching_service [(''username'', VStr ''bogus'')]
       (Some [(''first_name'', VStr ''unit'')]) no_options 42) = Inl UpdateWithoutId
   \<and> ur_doc (update patching_service [(''username'', VStr ''bogus'')]
       (Some [(''first_name'', VStr ''unit'')]) no_options 42)
     = [(''username'', VStr ''bogus''), (''first_name'', VStr ''unit''), (''updated'', VDate 42)]
   \<and> str_truthy (updatedField patching_service)
   \<and> get_prop (ur_doc (update patching_service [(''username'', VStr ''bogus'')]
       (Some [(''first_name'', VStr ''unit'')]) no_options 42)) (the (updatedField patching_service))
     = VDate 42
   \<and> ''first_name'' \<in> set (modifiableKeys patching_service)
   \<and> truthy (get_prop [(''first_name'', VStr ''unit'')] ''first_name'')
   \<and> updatedField patching_service \<noteq> Some ''first_name''
   \<and> get_prop (ur_doc (update patching_service [(''username'', VStr ''bogus'')]
       (Some [(''first_name'', VStr ''unit'')]) no_options 42)) ''first_name''
     = get_prop [(''first_name'', VStr ''unit'')] ''first_name''"
proof -
  let ?doc = "[(''username'', VStr ''bogus'')]" and ?d = "[(''first_name'', VStr ''unit'')]"
  have rej: "ur_outcome (update patching_service ?doc (Some ?d) no_options 42) = Inl UpdateWithoutId"
    by (simp add: patching_service_def default_service_def update_def applyUpdates_def stamp_def
        str_truthy_def set_prop_def get_prop_def Let_def)
  have val: "stamp patching_service 42 (applyUpdates patching_service ?doc (Some ?d))
     = [(''username'', VStr ''bogus''), (''first_name'', VStr ''unit''), (''updated'', VDate 42)]"
    by (simp add: patching_service_def default_service_def applyUpdates_def stamp_def
        str_truthy_def set_prop_def get_prop_def)
  have side: "str_truthy (updatedField patching_service)"
    "''first_name'' \<in> set (modifiableKeys patching_service)"
    "truthy (get_prop ?d ''first_name'')"
    "updatedField patching_service \<noteq> Some ''first_name''"
    by (simp_all add: patching_service_def default_service_def str_truthy_def get_prop_def)
  note th = C10_row_mutated_before_id_check [OF rej]
  from th val
  have a: "ur_doc (update patching_service ?doc (Some ?d) no_options 42)
     = [(''username'', VStr ''bogus''), (''first_name'', VStr ''unit''), (''updated'', VDate 42)]"
    by simp
  from th side(1)
  have b: "get_prop (ur_doc (update patching_service ?doc (Some ?d) no_options 42))
             (the (updatedField patching_service)) = VDate 42"
    by blast
  from th side
  have c: "get_prop (ur_doc (update patching_service ?doc (Some ?d) no_options 42)) ''first_name''
     = get_prop ?d ''first_name''"
    by blast
  show ?thesis
    by (intro conjI) (rule rej a b c side)+
qed

section \<open>find: what it leaves of its arguments\<close>

text \<open>
  C9. \<^verbatim>\<open>find\<close> changes the objects it is given. The options object comes back
  without \<^verbatim>\<open>skip\<close>, \<^verbatim>\<open>take\<close>, \<^verbatim>\<open>fields\<close>, \<^verbatim>\<open>sort\<close>, \<^verbatim>\<open>conceal\<close> and
  \<^verbatim>\<open>mode\<close>, so it differs from what was passed as soon as one of them was set. When
  the concealment merge runs on a criteria object of the caller, the object comes back
  with its status entry deleted (it was truthy) or set to \<^verbatim>\<open>{ $ne: deletedStatus }\<close>,
  and differs from what was passed either way.
\<close>

theorem C9_find_mutates_arguments:
  "fr_options (find_crud svc criteria options)
     = options\<lparr>o_skip := None, o_take := None, o_fields := None, o_sort := None,
               o_conceal := None, o_mode := None\<rparr>
   \<and> (o_skip options \<noteq> None \<or> o_take options \<noteq> None \<or> o_fields options \<noteq> None
       \<or> o_sort options \<noteq> None \<or> o_conceal options \<noteq> None \<or> o_mode options \<noteq> None \<longrightarrow>
      fr_options (find_crud svc criteria options) \<noteq> options)
   \<and> (concealDeadResources svc \<and> o_conceal options \<noteq> Some False \<longrightarrow>
      fr_criteria (find_crud svc (Some c) options)
        = Some (if truthy (get_prop c (statusField svc)) then delete_prop c (statusField svc)
                else set_prop c (statusField svc) (VObj [(''$ne'', VStr (deletedStatus svc))]))
      \<and> fr_criteria (find_crud svc (Some c) options) \<noteq> Some c)"
proof (intro conjI impI)
  show "fr_options (find_crud svc criteria options)
     = options\<lparr>o_skip := None, o_take := None, o_fields := None, o_sort := None,
               o_conceal := None, o_mode := None\<rparr>"
    by (simp add: find_crud_def Let_def strip_options_def case_prod_beta)
  then have stripped: "o_skip (fr_options (find_crud svc criteria options)) = None
      \<and> o_take (fr_options (find_crud svc criteria options)) = None
      \<and> o_fields (fr_options (find_crud svc criteria options)) = None
      \<and> o_sort (fr_options (find_crud svc criteria options)) = None
      \<and> o_conceal (fr_options (find_crud svc criteria options)) = None
      \<and> o_mode (fr_options (find_crud svc criteria options)) = None"
    by simp
  show "fr_options (find_crud svc criteria options) \<noteq> options"
    if given: "o_skip options \<noteq> None \<or> o_take options \<noteq> None \<or> o_fields options \<noteq> None
       \<or> o_sort options \<noteq> None \<or> o_conceal options \<noteq> None \<or> o_mode options \<noteq> None"
  proof
    assume same: "fr_options (find_crud svc criteria options) = options"
    from stripped have "o_skip options = None \<and> o_take options = None \<and> o_fields options = None
      \<and> o_sort options = None \<and> o_conceal options = None \<and> o_mode options = None"
      unfolding same .
    with given show False by simp
  qed
next
  assume h: "concealDeadResources svc \<and> o_conceal options \<noteq> Some False"
  then have conceal: "(case o_conceal options of None \<Rightarrow> True | Some c \<Rightarrow> c)"
    by (cases "o_conceal options") auto
  let ?c' = "if truthy (get_prop c (statusField svc)) then delete_prop c (statusField svc)
             else set_prop c (statusField svc) (VObj [(''$ne'', VStr (deletedStatus svc))])"
  have "fst (find_criteria svc (Some c) True) = Some ?c'"
    using h by (simp add: find_criteria_def conceal_status_def not_deleted_def)
  then show eq: "fr_criteria (find_crud svc (Some c) options) = Some ?c'"
    using conceal by (simp add: find_crud_def Let_def case_prod_beta)
  have "get_prop ?c' (statusField svc) \<noteq> get_prop c (statusField svc)"
  proof (cases "truthy (get_prop c (statusField svc))")
    case True
    then have "get_prop c (statusField svc) \<noteq> VUndef" by auto
    with True show ?thesis by (simp add: get_delete_same)
  next
    case False
    then have "get_prop c (statusField svc) \<noteq> VObj [(''$ne'', VStr (deletedStatus svc))]"
      by auto
    with False show ?thesis by (simp add: get_set_same)
  qed
  then have "?c' \<noteq> c"
  proof (rule contrapos_nn)
    assume "?c' = c"
    then show "get_prop ?c' (statusField svc) = get_prop c (statusField svc)"
      by (rule arg_cong)
  qed
  with eq show "fr_criteria (find_crud svc (Some c) options) \<noteq> Some c" by simp
qed

theorem C9_witness:
  "o_skip (no_options\<lparr>o_skip := Some (VNum 2)\<rparr>) \<noteq> None
   \<and> fr_options (find_crud default_service (Some [(''status'', VStr ''active'')])
         (no_options\<lparr>o_skip := Some (VNum 2)\<rparr>)) = no_options
   \<and> fr_options (find_crud default_service (Some [(''status'', VStr ''active'')])
         (no_options\<lparr>o_skip := Some (VNum 2)\<rparr>)) \<noteq> no_options\<lparr>o_skip := Some (VNum 2)\<rparr>
   \<and> concealDeadResources default_service
   \<and> o_conceal (no_options\<lparr>o_skip := Some (VNum 2)\<rparr>) \<noteq> Some False
   \<and> fr_criteria (find_crud default_service (Some [(''status'', VStr ''active'')])
         (no_options\<lparr>o_skip := Some (VNum 2)\<rparr>)) = Some []
   \<and> fr_criteria (find_crud default_service (Some [(''status'', VStr ''active'')])
         (no_options\<lparr>o_skip := Some (VNum 2)\<rparr>)) \<noteq> Some [(''status'', VStr ''active'')]"
proof -
  let ?c = "[(''status'', VStr ''active'')]" and ?o = "no_options\<lparr>o_skip := Some (VNum 2)\<rparr>"
  have side: "o_skip ?o \<noteq> None" "concealDeadResources default_service"
    "o_conceal ?o \<noteq> Some False"
    by (simp_all add: no_options_def default_service_def)
  have val: "(if truthy (get_prop ?c (statusField default_service))
              then delete_prop ?c (statusField default_service)
              else set_prop ?c (statusField default_service)
                     (VObj [(''$ne'', VStr (deletedStatus default_service))])) = []"
    by (simp add: default_service_def get_prop_def delete_prop_def)
  have opt: "?o\<lparr>o_skip := None, o_take := None, o_fields := None, o_sort := None,
               o_conceal := None, o_mode := None\<rparr> = no_options"
    by (simp add: no_options_def)
  note th = C9_find_mutates_arguments [of default_service "Some ?c" ?o ?c]
  from th opt have a: "fr_options (find_crud default_service (Some ?c) ?o) = no_options"
    by simp
  from th side have b: "fr_options (find_crud default_service (Some ?c) ?o) \<noteq> ?o"
    by blast
  from th side val have c: "fr_criteria (find_crud default_service (Some ?c) ?o) = Some []"
    by simp
  from th side have d: "fr_criteria (find_crud default_service (Some ?c) ?o) \<noteq> Some ?c"
    by blast
  show ?thesis
    by (intro conjI) (rule side a b c d)+
qed

section \<open>Placeholders follow the arguments\<close>

lemma placeholders_append: "placeholders (xs @ ys) = placeholders xs @ placeholders ys"
  by (induction xs rule: placeholders.induct) simp_all

lemma placeholders_join: "placeholders (join [T s] xss) = concat (map placeholders xss)"
  by (induction "[T s]" xss rule: join.induct) (simp_all add: placeholders_append)

lemma placeholders_params: "placeholders (join [T s] (map (\<lambda>n. [P n]) ns)) = ns"
  by (induction ns) (simp_all add: placeholders_join)

lemma placeholders_where: "placeholders (render_where wh) = clause_params wh"
  by (simp add: render_where_def clause_params_def placeholders_join comp_def)

lemma clause_params_append: "clause_params (xs @ ys) = clause_params xs @ clause_params ys"
  by (simp add: clause_params_def)

lemma extends_refl: "extends st st"
  by (simp add: extends_def clause_params_def)

lemma extends_trans:
  assumes "extends a b" and "extends b c"
  shows "extends a c"
proof -
  from assms(1) obtain ws1 as1 where 1: "wheres b = wheres a @ ws1" "args b = args a @ as1"
    "clause_params ws1 = [Suc (length (args a)) ..< Suc (length (args b))]"
    by (auto simp: extends_def)
  from assms(2) obtain ws2 as2 where 2: "wheres c = wheres b @ ws2" "args c = args b @ as2"
    "clause_params ws2 = [Suc (length (args b)) ..< Suc (length (args c))]"
    by (auto simp: extends_def)
  have le: "length (args a) \<le> length (args b)" "length (args b) \<le> length (args c)"
    using 1(2) 2(2) by simp_all
  have "[Suc (length (args a)) ..< Suc (length (args b))] @ [Suc (length (args b)) ..< Suc (length (args c))]
        = [Suc (length (args a)) ..< Suc (length (args c))]"
  proof -
    obtain k where k: "length (args c) = length (args b) + k"
      using le(2) by (auto simp: le_iff_add)
    have "[Suc (length (args a)) ..< Suc (length (args b)) + k]
          = [Suc (length (args a)) ..< Suc (length (args b))]
            @ [Suc (length (args b)) ..< Suc (length (args b)) + k]"
      using le(1) by (intro upt_add_eq_append) simp
    then show ?thesis by (simp add: k)
  qed
  then have "clause_params (ws1 @ ws2) = [Suc (length (args a)) ..< Suc (length (args c))]"
    using 1(3) 2(3) by (simp add: clause_params_append)
  moreover have "wheres c = wheres a @ (ws1 @ ws2)" "args c = args a @ (as1 @ as2)"
    using 1 2 by simp_all
  ultimately show ?thesis unfolding extends_def by blast
qed

lemma extends_push:
  assumes "placeholders (render_clause c) = [Suc (length (args st))]"
  shows "extends st (push c v st)"
  unfolding extends_def
  by (rule exI [of _ "[c]"], rule exI [of _ "[v]"]) (simp add: push_def clause_params_def assms)

lemma extends_op_key:
  assumes "\<And>n. placeholders (render_clause (mk n)) = [n]"
  shows "extends st (op_key ob k mk st)"
  by (simp add: op_key_def extends_refl extends_push assms)

lemma extends_range_ops: "extends st (range_ops field ob st)"
  unfolding range_ops_def
  by (intro extends_trans [OF _ extends_op_key] extends_op_key) simp_all

lemma extends_report_unmatched: "extends st (report_unmatched n st)"
  by (simp add: report_unmatched_def extends_def clause_params_def)

lemma extends_build_field: "extends st (build_field field v equality st)"
proof (induction field v equality st rule: build_field.induct)
  case (1 field vs equality st)
  have "clause_params [CIn field (\<not> equality) [length (args st) + 1 ..< length (args st) + 1 + length vs]]
        = [Suc (length (args st)) ..< Suc (length (args st) + length vs)]"
    by (simp add: clause_params_def placeholders_append placeholders_params)
  then show ?case
    unfolding extends_def
    by (intro exI [of _ "[CIn field (\<not> equality) [length (args st) + 1 ..< length (args st) + 1 + length vs]]"]
        exI [of _ vs]) simp
next
  case (2 field ob equality st)
  let ?s1 = "if truthy (get_prop ob ''$ne'')
             then build_field field (get_prop ob ''$ne'') False st else st"
  have "extends st ?s1" using 2 by (simp add: extends_refl)
  then have "extends st (range_ops field ob ?s1)"
    by (rule extends_trans) (rule extends_range_ops)
  then have "extends st (report_unmatched (length (wheres st)) (range_ops field ob ?s1))"
    by (rule extends_trans) (rule extends_report_unmatched)
  then show ?case by simp
qed (simp_all add: extends_push)

lemma extends_fold:
  "extends st (fold (\<lambda>field s. build_field field (g field) equality s) ks st)"
proof (induction ks arbitrary: st)
  case Nil
  show ?case by (simp add: extends_refl)
next
  case (Cons k ks)
  show ?case
    using extends_trans [OF extends_build_field Cons.IH] by simp
qed

lemma extends_buildCriteria: "extends st (buildCriteria criteria st equality)"
  unfolding buildCriteria_def by (rule extends_fold)

lemma extends_conceal_status: "extends st (snd (conceal_status svc c st))"
  unfolding extends_def conceal_status_def
  by (cases "truthy (get_prop c (statusField svc))")
     (simp_all add: clause_params_def placeholders_append)

lemma extends_find_criteria: "extends empty_cstate (snd (find_criteria svc criteria conceal))"
  by (cases criteria)
     (simp_all add: find_criteria_def extends_refl case_prod_beta extends_conceal_status)

lemma find_stmt:
  "q_stmt (fr_query (find_crud svc criteria options)) =
     Select (find_projection (o_mode options)
               (if o_mode options \<noteq> None then None else o_fields options))
       (wheres (find_compiled svc criteria options))
       (o_sort options)
       (case o_skip options of None \<Rightarrow> None
        | Some v \<Rightarrow> Some (length (args (find_compiled svc criteria options)) + 1))
       (case o_take options of None \<Rightarrow> NoLimit
        | Some v \<Rightarrow> LimitParam (length (args (find_compiled svc criteria options)
                       @ (case o_skip options of None \<Rightarrow> [] | Some v \<Rightarrow> [v])) + 1))"
  unfolding find_compiled_def
  by (simp add: find_crud_def Let_def case_prod_beta)

lemma find_args:
  "q_args (fr_query (find_crud svc criteria options)) =
     args (find_compiled svc criteria options)
     @ (case o_skip options of None \<Rightarrow> [] | Some v \<Rightarrow> [v])
     @ (case o_take options of None \<Rightarrow> [] | Some v \<Rightarrow> [v])"
  by (simp add: find_crud_def find_compiled_def Let_def case_prod_beta)

lemma extends_find_compiled: "extends empty_cstate (find_compiled svc criteria options)"
  unfolding find_compiled_def
  by (rule extends_trans [OF extends_find_criteria extends_buildCriteria])

lemma find_compiled_params:
  "clause_params (wheres (find_compiled svc criteria options))
     = [1 ..< Suc (length (args (find_compiled svc criteria options)))]"
  using extends_find_compiled [of svc criteria options]
  by (auto simp: extends_def empty_cstate_def)

lemma placeholders_sort: "placeholders (render_sort srt) = []"
  by (cases srt) (simp_all add: render_sort_def)

lemma paged_query:
  "fr_query (find_crud default_service (Some paged_criteria) paged_options)
     = \<lparr>q_stmt = Select Star
                  [CBoth (CCmp ''status'' OpEq 1) (CCmp ''status'' OpNe 2), CIn ''id'' False [3, 4]]
                  None (Some 5) (LimitParam 6),
        q_args = [VStr ''active'', VStr ''dead'', VStr ''a'', VStr ''b'', VNum 0, VNum 2],
        q_client = None\<rparr>"
  by (simp add: find_crud_def find_criteria_def conceal_status_def buildCriteria_def okeys_def
      get_prop_def delete_prop_def default_service_def no_options_def paged_criteria_def
      paged_options_def empty_cstate_def find_projection_def Let_def)

lemma paged_text:
  "query_text default_service (fr_query (find_crud default_service (Some paged_criteria) paged_options))
     = ''SELECT * FROM '' @ quoted ''crud_test'' @ ''.'' @ quoted ''user''
       @ '' WHERE '' @ quoted ''status'' @ '' = $1 AND '' @ quoted ''status'' @ '' != $2 AND ''
       @ quoted ''id'' @ '' IN ($3, $4) OFFSET $5 LIMIT $6''"
  unfolding paged_query
  by (simp add: query_text_def default_service_def sql_text_def render_where_def
      render_sort_def render_offset_def quoted_def digit_def)

text \<open>
  C3. In the statement of \<^verbatim>\<open>find\<close>, read from left to right, the placeholders are
  \<^verbatim>\<open>$1\<close>, \<^verbatim>\<open>$2\<close>, ... up to the number of arguments: the k-th placeholder is
  \<^verbatim>\<open>$k\<close> and stands for the k-th argument pushed. The arguments are those of the
  WHERE clause, then \<^verbatim>\<open>skip\<close>, then \<^verbatim>\<open>take\<close>; the WHERE clause holds the
  placeholders of its own arguments, OFFSET the next one and LIMIT the one after.
\<close>

theorem C3_placeholders_follow_arguments:
  "placeholders (render_stmt sch tbl (q_stmt (fr_query (find_crud svc criteria options))))
     = [1 ..< Suc (length (q_args (fr_query (find_crud svc criteria options))))]
   \<and> (\<exists>wargs.
         q_args (fr_query (find_crud svc criteria options))
           = wargs @ (case o_skip options of None \<Rightarrow> [] | Some v \<Rightarrow> [v])
                   @ (case o_take options of None \<Rightarrow> [] | Some v \<Rightarrow> [v])
         \<and> placeholders (render_where (stmt_where (q_stmt (fr_query (find_crud svc criteria options)))))
             = [1 ..< Suc (length wargs)]
         \<and> stmt_offset (q_stmt (fr_query (find_crud svc criteria options)))
             = (case o_skip options of None \<Rightarrow> None | Some v \<Rightarrow> Some (length wargs + 1))
         \<and> stmt_limit (q_stmt (fr_query (find_crud svc criteria options)))
             = (case o_take options of None \<Rightarrow> NoLimit
                | Some v \<Rightarrow> LimitParam
                    (length wargs + length (case o_skip options of None \<Rightarrow> [] | Some v \<Rightarrow> [v]) + 1)))"
proof (intro conjI exI [of _ "args (find_compiled svc criteria options)"])
  let ?st = "find_compiled svc criteria options"
  have wh: "placeholders (render_where (wheres ?st)) = [1 ..< Suc (length (args ?st))]"
    by (simp only: placeholders_where find_compiled_params)
  show "placeholders (render_stmt sch tbl (q_stmt (fr_query (find_crud svc criteria options))))
     = [1 ..< Suc (length (q_args (fr_query (find_crud svc criteria options))))]"
    unfolding find_stmt find_args
    by (cases "o_skip options"; cases "o_take options")
       (simp_all add: placeholders_append wh placeholders_sort render_offset_def del: upt_Suc,
        simp_all)
  show "q_args (fr_query (find_crud svc criteria options))
           = args ?st @ (case o_skip options of None \<Rightarrow> [] | Some v \<Rightarrow> [v])
                   @ (case o_take options of None \<Rightarrow> [] | Some v \<Rightarrow> [v])"
    by (rule find_args)
  show "placeholders (render_where (stmt_where (q_stmt (fr_query (find_crud svc criteria options)))))
             = [1 ..< Suc (length (args ?st))]"
    unfolding find_stmt using wh by simp
  show "stmt_offset (q_stmt (fr_query (find_crud svc criteria options)))
             = (case o_skip options of None \<Rightarrow> None | Some v \<Rightarrow> Some (length (args ?st) + 1))"
    unfolding find_stmt by simp
  show "stmt_limit (q_stmt (fr_query (find_crud svc criteria options)))
             = (case o_take options of None \<Rightarrow> NoLimit
                | Some v \<Rightarrow> LimitParam
                    (length (args ?st) + length (case o_skip options of None \<Rightarrow> [] | Some v \<Rightarrow> [v]) + 1))"
    unfolding find_stmt by (cases "o_take options") simp_all
qed

theorem C3_witness:
  "placeholders (render_stmt ''crud_test'' ''user''
      (q_stmt (fr_query (find_crud default_service (Some paged_criteria) paged_options))))
     = [1, 2, 3, 4, 5, 6]
   \<and> q_args (fr_query (find_crud default_service (Some paged_criteria) paged_options))
     = [VStr ''active'', VStr ''dead'', VStr ''a'', VStr ''b'', VNum 0, VNum 2]"
proof -
  have "[1 ..< Suc (length [VStr ''active'', VStr ''dead'', VStr ''a'', VStr ''b'', VNum 0, VNum 2])]
        = [1, 2, 3, 4, 5, 6 :: nat]"
    by (simp add: upt_rec)
  then show ?thesis
    using C3_placeholders_follow_arguments
      [of "''crud_test''" "''user''" default_service "Some paged_criteria" paged_options]
    by (simp only: paged_query query.simps)
qed

section \<open>Concealment\<close>

lemma arg_at_append: "arg_at as n = VStr x \<Longrightarrow> arg_at (as @ rest) n = VStr x"
  by (auto simp: arg_at_def nth_append split: if_splits)

lemma excludes_append:
  "excludes sf (VStr x) as c \<Longrightarrow> excludes sf (VStr x) (as @ rest) c"
  by (induction c) (auto simp: arg_at_append)

lemma excludes_not_true:
  assumes "excludes sf (VStr x) as c" and "get_prop r sf = VStr x"
  shows "eval_clause r as c \<noteq> Some True"
  using assms
  by (induction c) (auto simp: sql_null_def and3_def split: if_splits)

lemma hidden_extends:
  assumes "hidden svc st" and "extends st st'"
  shows "hidden svc st'"
proof -
  from assms(2) obtain ws as where e: "wheres st' = wheres st @ ws" "args st' = args st @ as"
    by (auto simp: extends_def)
  from assms(1) obtain c where "c \<in> set (wheres st)"
    "excludes (statusField svc) (VStr (deletedStatus svc)) (args st) c"
    by (auto simp: hidden_def list_ex_iff)
  then have "c \<in> set (wheres st')"
    "excludes (statusField svc) (VStr (deletedStatus svc)) (args st') c"
    using e by (simp_all add: excludes_append)
  then show ?thesis by (auto simp: hidden_def list_ex_iff)
qed

lemma hidden_not_matches:
  assumes "hidden svc st" and "get_prop r (statusField svc) = VStr (deletedStatus svc)"
  shows "\<not> matches r (args st @ rest) (wheres st)"
proof -
  from assms(1) obtain c where c: "c \<in> set (wheres st)"
    "excludes (statusField svc) (VStr (deletedStatus svc)) (args st) c"
    by (auto simp: hidden_def list_ex_iff)
  from excludes_not_true [OF excludes_append [OF c(2)] assms(2)]
  have "eval_clause r (args st @ rest) c \<noteq> Some True" .
  with c(1) show ?thesis by (auto simp: matches_def list_all_iff)
qed

lemma build_not_deleted:
  "deletedStatus svc \<noteq> [] \<Longrightarrow>
   build_field f (not_deleted svc) equality st =
     push (CCmp f OpNe (length (args st) + 1)) (VStr (deletedStatus svc)) st"
  by (simp add: not_deleted_def range_ops_def op_key_def get_prop_def report_unmatched_def push_def)

lemma hidden_push:
  "hidden svc (push (CCmp (statusField svc) OpNe (Suc (length (args st)))) (VStr (deletedStatus svc)) st)"
  by (simp add: hidden_def push_def arg_at_def)

lemma hidden_fold:
  assumes "deletedStatus svc \<noteq> []" and "g (statusField svc) = not_deleted svc"
    and "statusField svc \<in> set ks"
  shows "hidden svc (fold (\<lambda>field s. build_field field (g field) equality s) ks st)"
  using assms(3)
proof (induction ks arbitrary: st)
  case Nil
  then show ?case by simp
next
  case (Cons k ks)
  show ?case
  proof (cases "k = statusField svc")
    case True
    have "hidden svc (build_field k (g k) equality st)"
      using True assms(1,2) by (simp add: build_not_deleted hidden_push)
    from hidden_extends [OF this extends_fold] show ?thesis by simp
  next
    case False
    with Cons.prems have "statusField svc \<in> set ks" by simp
    from Cons.IH [OF this] show ?thesis by simp
  qed
qed

lemma hidden_buildCriteria:
  assumes "deletedStatus svc \<noteq> []" and "get_prop criteria (statusField svc) = not_deleted svc"
  shows "hidden svc (buildCriteria criteria st equality)"
proof -
  have "get_prop criteria (statusField svc) \<noteq> VUndef"
    using assms(2) by (simp add: not_deleted_def)
  then have "statusField svc \<in> set (okeys criteria)" by (rule get_def_in)
  with assms show ?thesis
    unfolding buildCriteria_def by (intro hidden_fold) simp_all
qed

lemma hidden_merge:
  assumes "deletedStatus svc \<noteq> []"
  shows "hidden svc (buildCriteria (fst (conceal_status svc c st)) (snd (conceal_status svc c st)) True)"
proof (cases "truthy (get_prop c (statusField svc))")
  case True
  then have "hidden svc (snd (conceal_status svc c st))"
    by (simp add: conceal_status_def hidden_def arg_at_def nth_append)
  then show ?thesis by (rule hidden_extends) (rule extends_buildCriteria)
next
  case False
  then have "fst (conceal_status svc c st) = set_prop c (statusField svc) (not_deleted svc)"
    by (simp add: conceal_status_def)
  then show ?thesis
    using assms by (simp add: hidden_buildCriteria get_set_same)
qed

lemma hidden_find_compiled:
  assumes "concealDeadResources svc" and "o_conceal options \<noteq> Some False"
    and "deletedStatus svc \<noteq> []"
  shows "hidden svc (find_compiled svc criteria options)"
proof -
  from assms(2) have conceal: "(case o_conceal options of None \<Rightarrow> True | Some c \<Rightarrow> c)"
    by (cases "o_conceal options") auto
  show ?thesis
  proof (cases criteria)
    case None
    have "get_prop [(statusField svc, not_deleted svc)] (statusField svc) = not_deleted svc"
      by (simp add: get_prop_def)
    from hidden_buildCriteria [OF assms(3) this] show ?thesis
      using None assms(1) conceal by (simp add: find_compiled_def find_criteria_def)
  next
    case (Some c)
    from hidden_merge [OF assms(3), of c empty_cstate] show ?thesis
      using Some assms(1) conceal
      by (simp add: find_compiled_def find_criteria_def case_prod_beta)
  qed
qed

lemma conceal_on:
  "o_conceal options \<noteq> Some False \<Longrightarrow> (case o_conceal options of None \<Rightarrow> True | Some c \<Rightarrow> c)"
  by (cases "o_conceal options") auto

lemma find_where: "stmt_where (q_stmt (fr_query (find_crud svc criteria options)))
    = wheres (find_compiled svc criteria options)"
  by (simp add: find_stmt)

lemma count_compiled:
  "stmt_where (q_stmt (fr_query (count svc criteria options)))
     = wheres (find_compiled svc criteria options)
   \<and> q_args (fr_query (count svc criteria options)) = args (find_compiled svc criteria options)"
  by (simp add: count_def find_stmt find_args find_compiled_def)

lemma bulkUpdate_concealed:
  assumes "concealDeadResources svc" and "o_conceal options \<noteq> Some False"
  shows "stmt_where (q_stmt (br_query (bulkUpdate svc criteria data options now)))
           = wheres (buildCriteria
               (fst (conceal_status svc (or_empty criteria) (bulk_sets svc data now)))
               (snd (conceal_status svc (or_empty criteria) (bulk_sets svc data now))) True)
     \<and> q_args (br_query (bulkUpdate svc criteria data options now))
           = args (buildCriteria
               (fst (conceal_status svc (or_empty criteria) (bulk_sets svc data now)))
               (snd (conceal_status svc (or_empty criteria) (bulk_sets svc data now))) True)"
  using assms(1) conceal_on [OF assms(2)]
  by (simp add: bulkUpdate_def Let_def case_prod_beta or_empty_def bulk_sets_def)

lemma bulkUpdate_plain:
  assumes "o_conceal options = Some False"
  shows "stmt_where (q_stmt (br_query (bulkUpdate svc criteria data options now)))
           = wheres (buildCriteria (or_empty criteria) (bulk_sets svc data now) True)
     \<and> q_args (br_query (bulkUpdate svc criteria data options now))
           = args (buildCriteria (or_empty criteria) (bulk_sets svc data now) True)
     \<and> br_criteria (bulkUpdate svc criteria data options now) = criteria"
  using assms
  by (cases criteria) (simp_all add: bulkUpdate_def Let_def or_empty_def bulk_sets_def)

lemma bulkDeletePermanently_concealed:
  assumes "concealDeadResources svc" and "o_conceal options \<noteq> Some False"
  shows "stmt_where (q_stmt (br_query (bulkDeletePermanently svc criteria options)))
           = wheres (buildCriteria
               (fst (conceal_status svc (or_empty criteria) empty_cstate))
               (snd (conceal_status svc (or_empty criteria) empty_cstate)) True)
     \<and> q_args (br_query (bulkDeletePermanently svc criteria options))
           = args (buildCriteria
               (fst (conceal_status svc (or_empty criteria) empty_cstate))
               (snd (conceal_status svc (or_empty criteria) empty_cstate)) True)"
  using assms(1) conceal_on [OF assms(2)]
  by (simp add: bulkDeletePermanently_def Let_def case_prod_beta or_empty_def)

lemma bulkDeletePermanently_plain:
  assumes "o_conceal options = Some False"
  shows "stmt_where (q_stmt (br_query (bulkDeletePermanently svc criteria options)))
           = wheres (buildCriteria (or_empty criteria) empty_cstate True)
     \<and> q_args (br_query (bulkDeletePermanently svc criteria options))
           = args (buildCriteria (or_empty criteria) empty_cstate True)
     \<and> br_criteria (bulkDeletePermanently svc criteria options) = criteria"
  using assms
  by (cases criteria) (simp_all add: bulkDeletePermanently_def Let_def or_empty_def)

lemma find_plain:
  assumes "o_conceal options = Some False"
  shows "find_compiled svc criteria options = buildCriteria (or_empty criteria) empty_cstate True
     \<and> fr_criteria (find_crud svc criteria options) = criteria"
  using assms
  by (cases criteria)
     (simp_all add: find_compiled_def find_criteria_def or_empty_def find_crud_def Let_def)

lemma not_matches_args:
  assumes "hidden svc st" and "get_prop r (statusField svc) = VStr (deletedStatus svc)"
  shows "\<not> matches r (args st) (wheres st)"
  using hidden_not_matches [OF assms, of "[]"] by simp

text \<open>
  C1. On a service that conceals dead resources (its deleted status being the non-empty
  string the constructor leaves), with the \<^verbatim>\<open>conceal\<close> option of the call not false,
  no row whose status field holds the deleted status satisfies the WHERE clause of
  \<^verbatim>\<open>find\<close>, \<^verbatim>\<open>count\<close>, \<^verbatim>\<open>bulkUpdate\<close>, \<^verbatim>\<open>bulkDelete\<close> or
  \<^verbatim>\<open>bulkDeletePermanently\<close>, under the arguments of the call, whatever the criteria.
  With \<^verbatim>\<open>conceal: false\<close> the WHERE clause is the compiled criteria and nothing more.
\<close>

theorem C1_concealment_excludes_deleted_rows:
  "(concealDeadResources svc \<and> o_conceal options \<noteq> Some False \<and> deletedStatus svc \<noteq> []
      \<and> get_prop r (statusField svc) = VStr (deletedStatus svc) \<longrightarrow>
      \<not> matches r (q_args (fr_query (find_crud svc criteria options)))
            (stmt_where (q_stmt (fr_query (find_crud svc criteria options))))
      \<and> \<not> matches r (q_args (fr_query (count svc criteria options)))
            (stmt_where (q_stmt (fr_query (count svc criteria options))))
      \<and> \<not> matches r (q_args (br_query (bulkUpdate svc criteria data options now)))
            (stmt_where (q_stmt (br_query (bulkUpdate svc criteria data options now))))
      \<and> \<not> matches r (q_args (br_query (bulkDelete svc criteria options now)))
            (stmt_where (q_stmt (br_query (bulkDelete svc criteria options now))))
      \<and> \<not> matches r (q_args (br_query (bulkDeletePermanently svc criteria options)))
            (stmt_where (q_stmt (br_query (bulkDeletePermanently svc criteria options)))))
   \<and> (o_conceal options' = Some False \<longrightarrow>
      stmt_where (q_stmt (fr_query (find_crud svc criteria options')))
        = wheres (buildCriteria (or_empty criteria) empty_cstate True)
      \<and> stmt_where (q_stmt (fr_query (count svc criteria options')))
        = wheres (buildCriteria (or_empty criteria) empty_cstate True)
      \<and> stmt_where (q_stmt (br_query (bulkUpdate svc criteria data options' now)))
        = wheres (buildCriteria (or_empty criteria) (bulk_sets svc data now) True)
      \<and> stmt_where (q_stmt (br_query (bulkDelete svc criteria options' now)))
        = wheres (buildCriteria (or_empty criteria)
            (bulk_sets svc [(statusField svc, VStr (deletedStatus svc))] now) True)
      \<and> stmt_where (q_stmt (br_query (bulkDeletePermanently svc criteria options')))
        = wheres (buildCriteria (or_empty criteria) empty_cstate True))"
proof (intro conjI impI)
  assume h: "concealDeadResources svc \<and> o_conceal options \<noteq> Some False \<and> deletedStatus svc \<noteq> []
      \<and> get_prop r (statusField svc) = VStr (deletedStatus svc)"
  then have on: "concealDeadResources svc" "o_conceal options \<noteq> Some False"
    and d: "deletedStatus svc \<noteq> []"
    and dead: "get_prop r (statusField svc) = VStr (deletedStatus svc)"
    by simp_all
  have hf: "hidden svc (find_compiled svc criteria options)"
    using on d by (rule hidden_find_compiled)
  show "\<not> matches r (q_args (fr_query (find_crud svc criteria options)))
            (stmt_where (q_stmt (fr_query (find_crud svc criteria options))))"
    unfolding find_where find_args by (rule hidden_not_matches [OF hf dead])
  show "\<not> matches r (q_args (fr_query (count svc criteria options)))
            (stmt_where (q_stmt (fr_query (count svc criteria options))))"
    using not_matches_args [OF hf dead] by (simp add: count_compiled)
  show "\<not> matches r (q_args (br_query (bulkUpdate svc criteria data options now)))
            (stmt_where (q_stmt (br_query (bulkUpdate svc criteria data options now))))"
    using not_matches_args [OF hidden_merge [OF d] dead]
    by (simp add: bulkUpdate_concealed [OF on])
  show "\<not> matches r (q_args (br_query (bulkDelete svc criteria options now)))
            (stmt_where (q_stmt (br_query (bulkDelete svc criteria options now))))"
    unfolding bulkDelete_def
    using not_matches_args [OF hidden_merge [OF d] dead]
    by (simp add: bulkUpdate_concealed [OF on])
  show "\<not> matches r (q_args (br_query (bulkDeletePermanently svc criteria options)))
            (stmt_where (q_stmt (br_query (bulkDeletePermanently svc criteria options))))"
    using not_matches_args [OF hidden_merge [OF d] dead]
    by (simp add: bulkDeletePermanently_concealed [OF on])
next
  assume off: "o_conceal options' = Some False"
  show "stmt_where (q_stmt (fr_query (find_crud svc criteria options')))
        = wheres (buildCriteria (or_empty criteria) empty_cstate True)"
    by (simp add: find_where find_plain [OF off])
  show "stmt_where (q_stmt (fr_query (count svc criteria options')))
        = wheres (buildCriteria (or_empty criteria) empty_cstate True)"
    by (simp add: count_compiled find_plain [OF off])
  show "stmt_where (q_stmt (br_query (bulkUpdate svc criteria data options' now)))
        = wheres (buildCriteria (or_empty criteria) (bulk_sets svc data now) True)"
    by (simp add: bulkUpdate_plain [OF off])
  show "stmt_where (q_stmt (br_query (bulkDelete svc criteria options' now)))
        = wheres (buildCriteria (or_empty criteria)
            (bulk_sets svc [(statusField svc, VStr (deletedStatus svc))] now) True)"
    unfolding bulkDelete_def by (simp add: bulkUpdate_plain [OF off])
  show "stmt_where (q_stmt (br_query (bulkDeletePermanently svc criteria options')))
        = wheres (buildCriteria (or_empty criteria) empty_cstate True)"
    by (simp add: bulkDeletePermanently_plain [OF off])
qed

theorem C1_witness:
  "concealDeadResources default_service \<and> o_conceal no_options \<noteq> Some False
   \<and> deletedStatus default_service \<noteq> []
   \<and> get_prop dead_row (statusField default_service) = VStr (deletedStatus default_service)
   \<and> \<not> matches dead_row (q_args (fr_query (find_crud default_service None no_options)))
          (stmt_where (q_stmt (fr_query (find_crud default_service None no_options))))
   \<and> \<not> matches dead_row (q_args (fr_query (count default_service None no_options)))
          (stmt_where (q_stmt (fr_query (count default_service None no_options))))
   \<and> \<not> matches dead_row
          (q_args (br_query (bulkUpdate default_service None [(''first_name'', VNull)] no_options 42)))
          (stmt_where (q_stmt (br_query
             (bulkUpdate default_service None [(''first_name'', VNull)] no_options 42))))
   \<and> \<not> matches dead_row (q_args (br_query (bulkDelete default_service None no_options 42)))
          (stmt_where (q_stmt (br_query (bulkDelete default_service None no_options 42))))
   \<and> \<not> matches dead_row (q_args (br_query (bulkDeletePermanently default_service None no_options)))
          (stmt_where (q_stmt (br_query (bulkDeletePermanently default_service None no_options))))
   \<and> o_conceal unconcealed = Some False
   \<and> stmt_where (q_stmt (fr_query (find_crud default_service None unconcealed))) = []
   \<and> stmt_where (q_stmt (fr_query (count default_service None unconcealed))) = []
   \<and> stmt_where (q_stmt (br_query
         (bulkUpdate default_service None [(''first_name'', VNull)] unconcealed 42))) = []
   \<and> stmt_where (q_stmt (br_query (bulkDelete default_service None unconcealed 42))) = []
   \<and> stmt_where (q_stmt (br_query (bulkDeletePermanently default_service None unconcealed))) = []"
proof -
  have hyp: "concealDeadResources default_service \<and> o_conceal no_options \<noteq> Some False
     \<and> deletedStatus default_service \<noteq> []
     \<and> get_prop dead_row (statusField default_service) = VStr (deletedStatus default_service)"
    by (simp add: default_service_def no_options_def dead_row_def get_prop_def)
  have off: "o_conceal unconcealed = Some False"
    by (simp add: unconcealed_def)
  have plain: "wheres (buildCriteria (or_empty None) st True) = wheres st" for st
    by (simp add: buildCriteria_def or_empty_def okeys_def)
  note th = C1_concealment_excludes_deleted_rows
    [of default_service no_options dead_row None "[(''first_name'', VNull)]" 42 unconcealed]
  from th hyp have a:
    "\<not> matches dead_row (q_args (fr_query (find_crud default_service None no_options)))
          (stmt_where (q_stmt (fr_query (find_crud default_service None no_options))))
     \<and> \<not> matches dead_row (q_args (fr_query (count default_service None no_options)))
          (stmt_where (q_stmt (fr_query (count default_service None no_options))))
     \<and> \<not> matches dead_row
          (q_args (br_query (bulkUpdate default_service None [(''first_name'', VNull)] no_options 42)))
          (stmt_where (q_stmt (br_query
             (bulkUpdate default_service None [(''first_name'', VNull)] no_options 42))))
     \<and> \<not> matches dead_row (q_args (br_query (bulkDelete default_service None no_options 42)))
          (stmt_where (q_stmt (br_query (bulkDelete default_service None no_options 42))))
     \<and> \<not> matches dead_row (q_args (br_query (bulkDeletePermanently default_service None no_options)))
          (stmt_where (q_stmt (br_query (bulkDeletePermanently default_service None no_options))))"
    by (rule mp [OF conjunct1])
  from th off have b:
    "stmt_where (q_stmt (fr_query (find_crud default_service None unconcealed))) = []
     \<and> stmt_where (q_stmt (fr_query (count default_service None unconcealed))) = []
     \<and> stmt_where (q_stmt (br_query
         (bulkUpdate default_service None [(''first_name'', VNull)] unconcealed 42))) = []
     \<and> stmt_where (q_stmt (br_query (bulkDelete default_service None unconcealed 42))) = []
     \<and> stmt_where (q_stmt (br_query (bulkDeletePermanently default_service None unconcealed))) = []"
    by (simp add: plain empty_cstate_def bulk_sets_def)
  from hyp a off b show ?thesis by simp
qed

section \<open>Soft delete and retrieval\<close>

lemma apply_sets_map_of:
  assumes "distinct (map fst sets)"
  shows "get_prop (apply_sets sets as r) k
           = (case map_of sets k of None \<Rightarrow> get_prop r k | Some n \<Rightarrow> arg_at as n)"
  using assms unfolding apply_sets_def
proof (induction sets arbitrary: r)
  case Nil
  show ?case by simp
next
  case (Cons p sets)
  obtain f n where p: "p = (f, n)" by (cases p)
  from Cons.prems p have d: "distinct (map fst sets)" and nf: "f \<notin> fst ` set sets"
    by auto
  show ?case
  proof (cases "k = f")
    case True
    with nf have "map_of sets k = None" by (simp add: map_of_eq_None_iff)
    with Cons.IH [OF d, of "set_prop r f (arg_at as n)"] True p
    show ?thesis by (simp add: get_set_same)
  next
    case False
    with Cons.IH [OF d, of "set_prop r f (arg_at as n)"] p
    show ?thesis by (simp add: get_set_other split: option.split)
  qed
qed

lemma set_clauses_keys: "map fst (set_clauses sd) = okeys sd"
  by (simp add: set_clauses_def del: upt_Suc)

lemma apply_set_clauses:
  "get_prop (apply_sets (set_clauses sd) (set_args sd @ rest) r) k
     = (if k \<in> set (okeys sd) then get_prop sd k else get_prop r k)"
proof (cases "k \<in> set (okeys sd)")
  case True
  then obtain i where i: "i < length (okeys sd)" "okeys sd ! i = k"
    by (auto simp: in_set_conv_nth)
  have "get_prop (apply_sets (set_clauses sd) (set_args sd @ rest) r) k
          = arg_at (set_args sd @ rest) (Suc i)"
    using set_clauses_nth [OF i(1)] i(2)
    by (simp add: apply_sets_map_of set_clauses_keys distinct_okeys)
  with set_args_nth [OF i(1), of rest] i(2) True show ?thesis by simp
next
  case False
  then have "k \<notin> set (map fst (set_clauses sd))"
    unfolding set_clauses_keys .
  then have "map_of (set_clauses sd) k = None"
    by (simp add: map_of_eq_None_iff)
  with False show ?thesis
    by (simp add: apply_sets_map_of set_clauses_keys distinct_okeys)
qed

lemma okeys_delete: "k \<notin> set (okeys (delete_prop ob k))"
proof -
  have "set (okeys (delete_prop ob k)) = set (map fst (AList.delete k ob))"
    by (simp add: set_okeys delete_prop_def)
  also have "\<dots> = set (removeAll k (map fst ob))"
    by (simp only: delete_keys)
  finally show ?thesis by simp
qed


lemma matches_id:
  "matches r (as @ [v]) [CCmp (idField svc) OpEq (Suc (length as))] = same_id svc v r"
  by (simp add: matches_def same_id_def arg_at_def)

lemma delete_outcome:
  "ur_outcome (delete svc doc options now) =
     (if get_prop (deleted_doc svc doc now) (idField svc) = VUndef then Inl UpdateWithoutId
      else Inr \<lparr>q_stmt = Update (set_clauses (deleted_sets svc doc now))
                    [CCmp (idField svc) OpEq (length (set_args (deleted_sets svc doc now)) + 1)] True,
                q_args = set_args (deleted_sets svc doc now)
                         @ [get_prop (deleted_doc svc doc now) (idField svc)],
                q_client = o_client options\<rparr>)"
proof -
  have doc2: "stamp svc now (applyUpdates svc (set_prop doc (statusField svc) (VStr (deletedStatus svc))) None)
              = deleted_doc svc doc now"
    by (simp add: applyUpdates_def deleted_doc_def)
  show ?thesis
  proof (cases "get_prop (deleted_doc svc doc now) (idField svc) = VUndef")
    case True
    with update_rejects [of svc now "set_prop doc (statusField svc) (VStr (deletedStatus svc))" None options]
    show ?thesis by (simp add: delete_def doc2)
  next
    case False
    with update_query [of svc now "set_prop doc (statusField svc) (VStr (deletedStatus svc))" None options]
    show ?thesis by (simp add: delete_def doc2 deleted_sets_def)
  qed
qed

lemma run_delete_table:
  assumes "run_delete svc doc options now tb = Some tb'"
  shows "tb' = map (\<lambda>r. if same_id svc (get_prop (deleted_doc svc doc now) (idField svc)) r
                         then apply_sets (set_clauses (deleted_sets svc doc now))
                                (set_args (deleted_sets svc doc now)
                                 @ [get_prop (deleted_doc svc doc now) (idField svc)]) r
                         else r) tb"
proof (cases "get_prop (deleted_doc svc doc now) (idField svc) = VUndef")
  case True
  with assms show ?thesis by (simp add: run_delete_def delete_outcome)
next
  case False
  with assms show ?thesis
    by (simp add: run_delete_def delete_outcome Let_def matches_id)
qed

lemma deleted_doc_id:
  assumes "statusField svc \<noteq> idField svc" and "updatedField svc \<noteq> Some (idField svc)"
  shows "get_prop (deleted_doc svc doc now) (idField svc) = get_prop doc (idField svc)"
  using assms by (simp add: deleted_doc_def stamp_other get_set_other)

lemma deleted_sets_status:
  assumes "statusField svc \<noteq> idField svc" and "updatedField svc \<noteq> Some (statusField svc)"
  shows "get_prop (deleted_sets svc doc now) (statusField svc) = VStr (deletedStatus svc)"
  using assms
  by (simp add: deleted_sets_def deleted_doc_def get_delete_other get_assign_copy stamp_other
      get_set_same)

lemma deleted_row:
  assumes "statusField svc \<noteq> idField svc" and "updatedField svc \<noteq> Some (statusField svc)"
  shows "get_prop (apply_sets (set_clauses (deleted_sets svc doc now))
                     (set_args (deleted_sets svc doc now) @ rest) r) (statusField svc)
           = VStr (deletedStatus svc)"
    and "get_prop (apply_sets (set_clauses (deleted_sets svc doc now))
                     (set_args (deleted_sets svc doc now) @ rest) r) (idField svc)
           = get_prop r (idField svc)"
proof -
  have "get_prop (deleted_sets svc doc now) (statusField svc) \<noteq> VUndef"
    using deleted_sets_status [OF assms] by simp
  then have "statusField svc \<in> set (okeys (deleted_sets svc doc now))"
    by (rule get_def_in)
  then show "get_prop (apply_sets (set_clauses (deleted_sets svc doc now))
                     (set_args (deleted_sets svc doc now) @ rest) r) (statusField svc)
           = VStr (deletedStatus svc)"
    by (simp add: apply_set_clauses deleted_sets_status [OF assms])
  have "idField svc \<notin> set (okeys (deleted_sets svc doc now))"
    unfolding deleted_sets_def by (rule okeys_delete)
  then show "get_prop (apply_sets (set_clauses (deleted_sets svc doc now))
                     (set_args (deleted_sets svc doc now) @ rest) r) (idField svc)
           = get_prop r (idField svc)"
    by (simp add: apply_set_clauses)
qed

lemma first_take: "first_or_null \<lparr>rows = take (Suc 0) xs, rowCount = n\<rparr>
    = (case xs of [] \<Rightarrow> VNull | r # rs \<Rightarrow> VObj r)"
  by (cases xs) (simp_all add: first_or_null_def)

lemma exec_select_one:
  "exec_stmt (Select Star wh None None (LimitLit k)) as tb
     = Some (\<lparr>rows = take k (filter (\<lambda>r. matches r as wh) tb),
              rowCount = length (take k (filter (\<lambda>r. matches r as wh) tb))\<rparr>, tb)"
  by (simp add: project_def Let_def)

lemma run_retrieve_concealed:
  assumes "ident \<noteq> VUndef" and "ident \<noteq> VNull" and "concealDeadResources svc"
  shows "run_retrieve svc ident options tb =
     Some (case filter (\<lambda>r. same_id svc ident r
                 \<and> sql_cmp OpNe (get_prop r (statusField svc)) (VStr (deletedStatus svc)) = Some True)
               tb of
             [] \<Rightarrow> VNull | r # rs \<Rightarrow> VObj r)"
proof -
  have m: "matches r [ident, VStr (deletedStatus svc)]
             [CCmp (idField svc) OpEq (Suc 0), CCmp (statusField svc) OpNe 2]
           = (same_id svc ident r
              \<and> sql_cmp OpNe (get_prop r (statusField svc)) (VStr (deletedStatus svc)) = Some True)" for r
    by (simp add: matches_def same_id_def arg_at_def del: sql_cmp.simps)
  show ?thesis
    using assms
    by (simp add: run_retrieve_def retrieve_def exec_select_one first_take m del: sql_cmp.simps exec_stmt.simps)
qed

lemma run_retrieve_unconcealed:
  assumes "ident \<noteq> VUndef" and "ident \<noteq> VNull" and "\<not> concealDeadResources svc"
  shows "run_retrieve svc ident options tb =
     Some (case filter (same_id svc ident) tb of [] \<Rightarrow> VNull | r # rs \<Rightarrow> VObj r)"
proof -
  have m: "matches r [ident] [CCmp (idField svc) OpEq (Suc 0)] = same_id svc ident r" for r
    by (simp add: matches_def same_id_def arg_at_def del: sql_cmp.simps)
  show ?thesis
    using assms
    by (simp add: run_retrieve_def retrieve_def exec_select_one first_take m del: sql_cmp.simps exec_stmt.simps)
qed

lemma run_retrieve_null: "ident = VUndef \<or> ident = VNull \<Longrightarrow> run_retrieve svc ident options tb = Some VNull"
  by (auto simp: run_retrieve_def retrieve_def)


lemma same_id_not_null: "same_id svc ident r \<Longrightarrow> ident \<noteq> VUndef \<and> ident \<noteq> VNull"
  by (auto simp: same_id_def sql_null_def split: if_splits)

lemma run_delete_example:
  "run_delete default_service [(''id'', VStr ''c'')] no_options 42 active_table = Some deleted_table"
  "run_delete open_service [(''id'', VStr ''c'')] no_options 42 active_table = Some deleted_table"
  by (simp_all add: run_delete_def delete_def update_def open_service_def
      default_service_def no_options_def active_table_def deleted_table_def
      applyUpdates_def stamp_def str_truthy_def set_prop_def get_prop_def delete_prop_def
      assign_copy_def okeys_def set_clauses_def set_args_def Let_def matches_def arg_at_def
      sql_null_def apply_sets_def)

text \<open>
  C2, as the spec states it. After \<^verbatim>\<open>delete(row)\<close>, \<^verbatim>\<open>retrieve(row.id)\<close> returns
  null and \<^verbatim>\<open>retrieve(row.id, { conceal: false })\<close> returns the row with the deleted
  status. \<^verbatim>\<open>retrieve\<close> reads \<^verbatim>\<open>client\<close> from its options and nothing else: on a
  service that conceals dead resources the second call returns null as well.
\<close>

theorem C2_retrieve_ignores_conceal_option:
  "run_delete default_service [(''id'', VStr ''c'')] no_options 42 active_table = Some deleted_table
   \<and> run_retrieve default_service (VStr ''c'') unconcealed deleted_table = Some VNull"
  by (simp add: run_delete_def run_retrieve_def delete_def update_def retrieve_def
      default_service_def no_options_def unconcealed_def active_table_def deleted_table_def
      applyUpdates_def stamp_def str_truthy_def set_prop_def get_prop_def delete_prop_def
      assign_copy_def okeys_def set_clauses_def set_args_def Let_def matches_def arg_at_def
      sql_null_def apply_sets_def first_or_null_def project_def)

text \<open>
  C2, amended. Let \<^verbatim>\<open>delete(row)\<close> complete on a service whose id, status and updated
  fields are three different columns. No row is removed: row by row, a stored row with
  that id keeps its id and has the deleted status, and every other row is as it was. If
  the service conceals dead resources, \<^verbatim>\<open>retrieve(row.id)\<close> returns null whatever
  options it is given. If the service does not, and the table held a row with that id,
  it returns a row with that id whose status is the deleted status.
\<close>

theorem C2_delete_conceals_by_service_setting:
  "(run_delete svc doc options now tb = Some tb'
      \<and> statusField svc \<noteq> idField svc
      \<and> updatedField svc \<noteq> Some (statusField svc)
      \<and> updatedField svc \<noteq> Some (idField svc) \<longrightarrow>
      length tb' = length tb
      \<and> list_all2 (soft_deleted svc (get_prop doc (idField svc))) tb tb'
      \<and> (concealDeadResources svc \<longrightarrow>
           run_retrieve svc (get_prop doc (idField svc)) options' tb' = Some VNull)
      \<and> (\<not> concealDeadResources svc
           \<and> list_ex (same_id svc (get_prop doc (idField svc))) tb \<longrightarrow>
           (\<exists>r'. run_retrieve svc (get_prop doc (idField svc)) options' tb' = Some (VObj r')
                 \<and> get_prop r' (statusField svc) = VStr (deletedStatus svc)
                 \<and> same_id svc (get_prop doc (idField svc)) r')))"
proof (intro impI)
  assume h: "run_delete svc doc options now tb = Some tb'
      \<and> statusField svc \<noteq> idField svc
      \<and> updatedField svc \<noteq> Some (statusField svc)
      \<and> updatedField svc \<noteq> Some (idField svc)"
  let ?idv = "get_prop doc (idField svc)"
  let ?upd = "apply_sets (set_clauses (deleted_sets svc doc now))
                (set_args (deleted_sets svc doc now) @ [?idv])"
  let ?g = "\<lambda>r. if same_id svc ?idv r then ?upd r else r"
  from h have ne: "statusField svc \<noteq> idField svc" "updatedField svc \<noteq> Some (statusField svc)"
    and idv: "get_prop (deleted_doc svc doc now) (idField svc) = ?idv"
    by (simp_all add: deleted_doc_id)
  from h have tb': "tb' = map ?g tb"
    using run_delete_table [of svc doc options now tb tb'] by (simp add: idv)
  have st: "get_prop (?upd r) (statusField svc) = VStr (deletedStatus svc)" for r
    by (rule deleted_row(1) [OF ne])
  have keep: "get_prop (?upd r) (idField svc) = get_prop r (idField svc)" for r
    by (rule deleted_row(2) [OF ne])
  have same: "same_id svc ?idv (?g r) = same_id svc ?idv r" for r
    by (simp add: same_id_def keep del: sql_cmp.simps)
  have each: "soft_deleted svc ?idv r (?g r)" for r
    by (simp add: soft_deleted_def st keep)
  show "length tb' = length tb
      \<and> list_all2 (soft_deleted svc ?idv) tb tb'
      \<and> (concealDeadResources svc \<longrightarrow>
           run_retrieve svc ?idv options' tb' = Some VNull)
      \<and> (\<not> concealDeadResources svc \<and> list_ex (same_id svc ?idv) tb \<longrightarrow>
           (\<exists>r'. run_retrieve svc ?idv options' tb' = Some (VObj r')
                 \<and> get_prop r' (statusField svc) = VStr (deletedStatus svc)
                 \<and> same_id svc ?idv r'))"
  proof (intro conjI impI)
    show "length tb' = length tb" by (simp add: tb')
  next
    show "list_all2 (soft_deleted svc ?idv) tb tb'"
      unfolding tb' list_all2_map2 by (rule list_all2_refl) (rule each)
  next
    assume c: "concealDeadResources svc"
    show "run_retrieve svc ?idv options' tb' = Some VNull"
    proof (cases "?idv = VUndef \<or> ?idv = VNull")
      case True
      then show ?thesis by (rule run_retrieve_null)
    next
      case False
      have "\<not> (same_id svc ?idv (?g r)
               \<and> sql_cmp OpNe (get_prop (?g r) (statusField svc)) (VStr (deletedStatus svc))
                   = Some True)" for r
        by (cases "same_id svc ?idv r") (simp_all add: st sql_null_def)
      then have "filter (\<lambda>r. same_id svc ?idv r
                   \<and> sql_cmp OpNe (get_prop r (statusField svc)) (VStr (deletedStatus svc))
                       = Some True) tb' = []"
        unfolding tb' by (simp add: filter_map comp_def del: sql_cmp.simps)
      with False c show ?thesis
        by (simp add: run_retrieve_concealed del: sql_cmp.simps)
    qed
  next
    assume u: "\<not> concealDeadResources svc \<and> list_ex (same_id svc ?idv) tb"
    then obtain r0 rs where f: "filter (same_id svc ?idv) tb = r0 # rs"
      by (cases "filter (same_id svc ?idv) tb") (auto simp: list_ex_iff filter_empty_conv)
    have "r0 \<in> set (filter (same_id svc ?idv) tb)"
      unfolding f by simp
    then have r0: "same_id svc ?idv r0"
      by simp
    have "filter (same_id svc ?idv) tb' = map ?g (filter (same_id svc ?idv) tb)"
      unfolding tb' by (simp add: filter_map comp_def same)
    with f r0 have sel: "filter (same_id svc ?idv) tb' = ?upd r0 # map ?g rs"
      by simp
    from r0 have nn: "?idv \<noteq> VUndef" "?idv \<noteq> VNull"
      using same_id_not_null by blast+
    from u have "run_retrieve svc ?idv options' tb' = Some (VObj (?upd r0))"
      by (simp add: run_retrieve_unconcealed [OF nn] sel)
    moreover have "same_id svc ?idv (?upd r0)"
      using same [of r0] r0 by simp
    ultimately show "\<exists>r'. run_retrieve svc ?idv options' tb' = Some (VObj r')
                 \<and> get_prop r' (statusField svc) = VStr (deletedStatus svc)
                 \<and> same_id svc ?idv r'"
      using st [of r0] by blast
  qed
qed

theorem C2_witness:
  "run_delete default_service [(''id'', VStr ''c'')] no_options 42 active_table = Some deleted_table
   \<and> statusField default_service \<noteq> idField default_service
   \<and> updatedField default_service \<noteq> Some (statusField default_service)
   \<and> updatedField default_service \<noteq> Some (idField default_service)
   \<and> length deleted_table = length active_table
   \<and> list_all2 (soft_deleted default_service (VStr ''c'')) active_table deleted_table
   \<and> concealDeadResources default_service
   \<and> run_retrieve default_service (VStr ''c'') unconcealed deleted_table = Some VNull
   \<and> run_delete open_service [(''id'', VStr ''c'')] no_options 42 active_table = Some deleted_table
   \<and> \<not> concealDeadResources open_service
   \<and> list_ex (same_id open_service (VStr ''c'')) active_table
   \<and> (\<exists>r'. run_retrieve open_service (VStr ''c'') no_options deleted_table = Some (VObj r')
          \<and> get_prop r' (statusField open_service) = VStr (deletedStatus open_service)
          \<and> same_id open_service (VStr ''c'') r')"
proof -
  let ?doc = "[(''id'', VStr ''c'')]"
  have idv: "get_prop ?doc (idField default_service) = VStr ''c''"
    "get_prop ?doc (idField open_service) = VStr ''c''"
    by (simp_all add: get_prop_def default_service_def open_service_def)
  have cfg: "statusField default_service \<noteq> idField default_service"
    "updatedField default_service \<noteq> Some (statusField default_service)"
    "updatedField default_service \<noteq> Some (idField default_service)"
    "concealDeadResources default_service"
    "statusField open_service \<noteq> idField open_service"
    "updatedField open_service \<noteq> Some (statusField open_service)"
    "updatedField open_service \<noteq> Some (idField open_service)"
    "\<not> concealDeadResources open_service"
    by (simp_all add: default_service_def open_service_def)
  have ex: "list_ex (same_id open_service (VStr ''c'')) active_table"
    by (simp add: same_id_def active_table_def get_prop_def open_service_def default_service_def
        sql_null_def)
  note a = C2_delete_conceals_by_service_setting
    [of default_service ?doc no_options 42 active_table deleted_table unconcealed]
  note b = C2_delete_conceals_by_service_setting
    [of open_service ?doc no_options 42 active_table deleted_table no_options]
  from a run_delete_example(1) cfg(1-4)
  have a': "length deleted_table = length active_table"
    "list_all2 (soft_deleted default_service (VStr ''c'')) active_table deleted_table"
    "run_retrieve default_service (VStr ''c'') unconcealed deleted_table = Some VNull"
    unfolding idv by blast+
  from b run_delete_example(2) cfg(5-8) ex
  have b': "\<exists>r'. run_retrieve open_service (VStr ''c'') no_options deleted_table = Some (VObj r')
          \<and> get_prop r' (statusField open_service) = VStr (deletedStatus open_service)
          \<and> same_id open_service (VStr ''c'') r'"
    unfolding idv by blast
  show ?thesis
    by (intro conjI) (rule run_delete_example cfg a' b' ex)+
qed

section \<open>The stamp in the statements\<close>

lemma bulkUpdate_sets:
  "stmt_sets (q_stmt (br_query (bulkUpdate svc criteria pd options now)))
     = set_clauses (delete_prop (assign_copy (stamp svc now pd)) (idField svc))"
  by (simp add: bulkUpdate_def Let_def case_prod_beta)

lemma bulkUpdate_args:
  "\<exists>as. q_args (br_query (bulkUpdate svc criteria pd options now))
          = set_args (delete_prop (assign_copy (stamp svc now pd)) (idField svc)) @ as"
proof -
  let ?st0 = "\<lparr>wheres = [],
               args = set_args (delete_prop (assign_copy (stamp svc now pd)) (idField svc)),
               reports = []\<rparr>"
  let ?c0 = "case criteria of None \<Rightarrow> [] | Some c \<Rightarrow> c"
  let ?x = "if concealDeadResources svc \<and> (case o_conceal options of None \<Rightarrow> True | Some c \<Rightarrow> c)
            then conceal_status svc ?c0 ?st0 else (?c0, ?st0)"
  have "extends ?st0 (snd ?x)"
    by (simp add: extends_refl extends_conceal_status)
  then have "extends ?st0 (buildCriteria (fst ?x) (snd ?x) True)"
    by (rule extends_trans) (rule extends_buildCriteria)
  then obtain as where "args (buildCriteria (fst ?x) (snd ?x) True) = args ?st0 @ as"
    by (auto simp: extends_def)
  moreover have "q_args (br_query (bulkUpdate svc criteria pd options now))
                   = args (buildCriteria (fst ?x) (snd ?x) True)"
    by (simp add: bulkUpdate_def Let_def case_prod_beta)
  ultimately show ?thesis by simp
qed

lemma stamped_set_clause:
  assumes "str_truthy (updatedField svc)" and "updatedField svc \<noteq> Some (idField svc)"
  shows "\<exists>n. (the (updatedField svc), n)
               \<in> set (set_clauses (delete_prop (assign_copy (stamp svc now d)) (idField svc)))
             \<and> arg_at (set_args (delete_prop (assign_copy (stamp svc now d)) (idField svc)) @ rest) n
                 = VDate now"
proof -
  let ?uf = "the (updatedField svc)"
  let ?sd = "delete_prop (assign_copy (stamp svc now d)) (idField svc)"
  from assms have ne: "?uf \<noteq> idField svc"
    by (cases "updatedField svc") (auto simp: str_truthy_def)
  have val: "get_prop ?sd ?uf = VDate now"
    using ne assms(1) by (simp add: get_delete_other get_assign_copy stamp_same)
  then have "?uf \<in> set (okeys ?sd)"
    by (intro get_def_in) simp
  from set_clause_arg [OF this, of rest] val show ?thesis by simp
qed

lemma set_clauses_without:
  "k \<notin> fst ` set (set_clauses (delete_prop ob k))"
proof -
  have "fst ` set (set_clauses (delete_prop ob k)) = set (okeys (delete_prop ob k))"
    using set_clauses_keys [of "delete_prop ob k"] by (metis set_map)
  then show ?thesis by (simp add: okeys_delete)
qed

text \<open>
  C6, as the spec states it. \<^verbatim>\<open>update\<close> stamps the configured \<^verbatim>\<open>updatedField\<close>
  before it issues the UPDATE, and a service constructed with \<^verbatim>\<open>updatedField\<close> set
  to null does not stamp. The constructor reads \<^verbatim>\<open>options.updatedField || 'updated'\<close>:
  a null option gives the field \<^verbatim>\<open>updated\<close>, and \<^verbatim>\<open>update\<close> and \<^verbatim>\<open>bulkUpdate\<close>
  stamp it.
\<close>

theorem C6_null_updatedField_still_stamps:
  "constructor (Some (default_options\<lparr>opt_updatedField := None\<rparr>)) = Inr default_service
   \<and> ur_doc (update default_service [(''id'', VStr ''a'')] None no_options 42)
       = [(''id'', VStr ''a''), (''updated'', VDate 42)]
   \<and> ur_outcome (update default_service [(''id'', VStr ''a'')] None no_options 42)
       = Inr \<lparr>q_stmt = Update [(''updated'', 1)] [CCmp ''id'' OpEq 2] True,
              q_args = [VDate 42, VStr ''a''], q_client = None\<rparr>
   \<and> br_data (bulkUpdate default_service None [(''first_name'', VStr ''bulk'')] no_options 42)
       = [(''first_name'', VStr ''bulk''), (''updated'', VDate 42)]"
  by (simp add: constructor_def default_options_def default_service_def str_truthy_def str_or_def
      update_def applyUpdates_def stamp_def set_prop_def get_prop_def delete_prop_def
      assign_copy_def okeys_def set_clauses_def set_args_def no_options_def bulkUpdate_def
      Let_def split: prod.split)

text \<open>
  C6, amended. When the \<^verbatim>\<open>updatedField\<close> of the instance is truthy, \<^verbatim>\<open>update\<close>
  writes the current time under it onto the row and \<^verbatim>\<open>bulkUpdate\<close> onto the patch.
  If that field is not the id field, the UPDATE that \<^verbatim>\<open>update\<close> issues and the UPDATE
  of \<^verbatim>\<open>bulkUpdate\<close> assign that time to that column. If that field is the id field,
  neither UPDATE assigns it: \<^verbatim>\<open>update\<close> has overwritten the id of the row, is never
  rejected, and binds the time to the placeholder of \<^verbatim>\<open>WHERE "id" = $n\<close>. When the
  field of the instance is falsy, neither operation stamps. The constructor never
  leaves the field falsy.
\<close>

theorem C6_stamp_follows_instance_field:
  "(str_truthy (updatedField svc) \<longrightarrow>
      ur_doc (update svc doc data options now)
        = set_prop (applyUpdates svc doc data) (the (updatedField svc)) (VDate now)
      \<and> br_data (bulkUpdate svc criteria pd options now)
        = set_prop pd (the (updatedField svc)) (VDate now))
   \<and> (str_truthy (updatedField svc) \<and> updatedField svc \<noteq> Some (idField svc) \<longrightarrow>
      (\<forall>q. ur_outcome (update svc doc data options now) = Inr q \<longrightarrow>
         (\<exists>n. (the (updatedField svc), n) \<in> set (stmt_sets (q_stmt q))
              \<and> arg_at (q_args q) n = VDate now))
      \<and> (\<exists>n. (the (updatedField svc), n)
                 \<in> set (stmt_sets (q_stmt (br_query (bulkUpdate svc criteria pd options now))))
               \<and> arg_at (q_args (br_query (bulkUpdate svc criteria pd options now))) n
                   = VDate now))
   \<and> (str_truthy (updatedField svc) \<and> updatedField svc = Some (idField svc) \<longrightarrow>
      (\<exists>q. ur_outcome (update svc doc data options now) = Inr q
            \<and> idField svc \<notin> fst ` set (stmt_sets (q_stmt q))
            \<and> stmt_where (q_stmt q) = [CCmp (idField svc) OpEq (length (q_args q))]
            \<and> arg_at (q_args q) (length (q_args q)) = VDate now)
      \<and> idField svc
           \<notin> fst ` set (stmt_sets (q_stmt (br_query (bulkUpdate svc criteria pd options now)))))
   \<and> (\<not> str_truthy (updatedField svc) \<longrightarrow>
        ur_doc (update svc doc data options now) = applyUpdates svc doc data
        \<and> br_data (bulkUpdate svc criteria pd options now) = pd)
   \<and> (constructor copts = Inr svc' \<longrightarrow> str_truthy (updatedField svc'))"
proof (intro conjI impI allI)
  assume t: "str_truthy (updatedField svc)"
  show "ur_doc (update svc doc data options now)
        = set_prop (applyUpdates svc doc data) (the (updatedField svc)) (VDate now)"
    using t by (simp add: update_doc stamp_def)
  show "br_data (bulkUpdate svc criteria pd options now)
        = set_prop pd (the (updatedField svc)) (VDate now)"
    using t by (simp add: bulkUpdate_data stamp_def)
next
  fix q
  assume t: "str_truthy (updatedField svc) \<and> updatedField svc \<noteq> Some (idField svc)"
    and q: "ur_outcome (update svc doc data options now) = Inr q"
  let ?doc2 = "stamp svc now (applyUpdates svc doc data)"
  let ?sd = "delete_prop (assign_copy ?doc2) (idField svc)"
  have "get_prop ?doc2 (idField svc) \<noteq> VUndef"
    using q update_rejects [of svc now doc data options] by auto
  from update_query [OF this, of options] q
  have stmt: "stmt_sets (q_stmt q) = set_clauses ?sd"
    and as: "q_args q = set_args ?sd @ [get_prop ?doc2 (idField svc)]"
    by auto
  from t have t1: "str_truthy (updatedField svc)" and t2: "updatedField svc \<noteq> Some (idField svc)"
    by simp_all
  from stamped_set_clause [OF t1 t2, of now "applyUpdates svc doc data"
      "[get_prop ?doc2 (idField svc)]"]
  show "\<exists>n. (the (updatedField svc), n) \<in> set (stmt_sets (q_stmt q))
            \<and> arg_at (q_args q) n = VDate now"
    unfolding stmt as .
next
  assume t: "str_truthy (updatedField svc) \<and> updatedField svc \<noteq> Some (idField svc)"
  then have t1: "str_truthy (updatedField svc)" and t2: "updatedField svc \<noteq> Some (idField svc)"
    by simp_all
  obtain as where as: "q_args (br_query (bulkUpdate svc criteria pd options now))
          = set_args (delete_prop (assign_copy (stamp svc now pd)) (idField svc)) @ as"
    using bulkUpdate_args by blast
  from stamped_set_clause [OF t1 t2, of now pd as]
  show "\<exists>n. (the (updatedField svc), n)
                 \<in> set (stmt_sets (q_stmt (br_query (bulkUpdate svc criteria pd options now))))
               \<and> arg_at (q_args (br_query (bulkUpdate svc criteria pd options now))) n
                   = VDate now"
    unfolding bulkUpdate_sets as .
next
  assume t: "str_truthy (updatedField svc) \<and> updatedField svc = Some (idField svc)"
  let ?doc2 = "stamp svc now (applyUpdates svc doc data)"
  let ?sd = "delete_prop (assign_copy ?doc2) (idField svc)"
  let ?q = "\<lparr>q_stmt = Update (set_clauses ?sd)
                 [CCmp (idField svc) OpEq (length (set_args ?sd) + 1)] True,
             q_args = set_args ?sd @ [get_prop ?doc2 (idField svc)],
             q_client = o_client options\<rparr>"
  from t have t1: "str_truthy (updatedField svc)"
    by (rule conjunct1)
  from t have t2: "the (updatedField svc) = idField svc"
    by simp
  have idv: "get_prop ?doc2 (idField svc) = VDate now"
    using stamp_same [OF t1, of now "applyUpdates svc doc data"] unfolding t2 .
  then have "get_prop ?doc2 (idField svc) \<noteq> VUndef" by simp
  from update_query [OF this, of options]
  have out: "ur_outcome (update svc doc data options now) = Inr ?q" .
  have "idField svc \<notin> fst ` set (stmt_sets (q_stmt ?q))"
    using set_clauses_without [of "idField svc" "assign_copy ?doc2"] by simp
  moreover have "stmt_where (q_stmt ?q) = [CCmp (idField svc) OpEq (length (q_args ?q))]"
    by simp
  moreover have "arg_at (q_args ?q) (length (q_args ?q)) = VDate now"
    by (simp add: arg_at_def idv)
  ultimately show "\<exists>q. ur_outcome (update svc doc data options now) = Inr q
            \<and> idField svc \<notin> fst ` set (stmt_sets (q_stmt q))
            \<and> stmt_where (q_stmt q) = [CCmp (idField svc) OpEq (length (q_args q))]
            \<and> arg_at (q_args q) (length (q_args q)) = VDate now"
    using out by blast
  show "idField svc
           \<notin> fst ` set (stmt_sets (q_stmt (br_query (bulkUpdate svc criteria pd options now))))"
    unfolding bulkUpdate_sets by (rule set_clauses_without)
next
  assume "\<not> str_truthy (updatedField svc)"
  then show "ur_doc (update svc doc data options now) = applyUpdates svc doc data"
    and "br_data (bulkUpdate svc criteria pd options now) = pd"
    by (simp_all add: update_doc bulkUpdate_data stamp_def)
next
  assume "constructor copts = Inr svc'"
  then show "str_truthy (updatedField svc')" by (rule constructor_updatedField)
qed

theorem C6_witness:
  "str_truthy (updatedField default_service)
   \<and> ur_doc (update default_service [(''id'', VStr ''a'')] None no_options 42)
       = set_prop (applyUpdates default_service [(''id'', VStr ''a'')] None) ''updated'' (VDate 42)
   \<and> br_data (bulkUpdate default_service None [(''first_name'', VStr ''bulk'')] no_options 42)
       = set_prop [(''first_name'', VStr ''bulk'')] ''updated'' (VDate 42)
   \<and> updatedField default_service \<noteq> Some (idField default_service)
   \<and> (\<exists>q n. ur_outcome (update default_service [(''id'', VStr ''a'')] None no_options 42) = Inr q
          \<and> (''updated'', n) \<in> set (stmt_sets (q_stmt q)) \<and> arg_at (q_args q) n = VDate 42)
   \<and> (\<exists>n. (''updated'', n)
             \<in> set (stmt_sets (q_stmt (br_query
                   (bulkUpdate default_service None [(''first_name'', VStr ''bulk'')] no_options 42))))
           \<and> arg_at (q_args (br_query
                   (bulkUpdate default_service None [(''first_name'', VStr ''bulk'')] no_options 42))) n
               = VDate 42)
   \<and> str_truthy (updatedField id_stamped_service)
   \<and> updatedField id_stamped_service = Some (idField id_stamped_service)
   \<and> (\<exists>q. ur_outcome (update id_stamped_service [(''n'', VNum 1)] None no_options 42) = Inr q
          \<and> ''id'' \<notin> fst ` set (stmt_sets (q_stmt q))
          \<and> stmt_where (q_stmt q) = [CCmp ''id'' OpEq (length (q_args q))]
          \<and> arg_at (q_args q) (length (q_args q)) = VDate 42)
   \<and> ''id'' \<notin> fst ` set (stmt_sets (q_stmt (br_query
          (bulkUpdate id_stamped_service None [(''first_name'', VStr ''bulk'')] no_options 42))))
   \<and> \<not> str_truthy (updatedField unstamped_service)
   \<and> ur_doc (update unstamped_service [(''id'', VStr ''a'')] None no_options 42)
       = applyUpdates unstamped_service [(''id'', VStr ''a'')] None
   \<and> br_data (bulkUpdate unstamped_service None [(''first_name'', VStr ''bulk'')] no_options 42)
       = [(''first_name'', VStr ''bulk'')]
   \<and> constructor (Some default_options) = Inr default_service"
proof -
  let ?doc = "[(''id'', VStr ''a'')]" and ?pd = "[(''first_name'', VStr ''bulk'')]"
  let ?row = "[(''n'', VNum 1)]"
  let ?q = "\<lparr>q_stmt = Update [(''updated'', 1)] [CCmp ''id'' OpEq 2] True,
             q_args = [VDate 42, VStr ''a''], q_client = None\<rparr>"
  have t: "str_truthy (updatedField default_service)"
    and u: "\<not> str_truthy (updatedField unstamped_service)"
    and ne: "updatedField default_service \<noteq> Some (idField default_service)"
    and uf: "the (updatedField default_service) = ''updated''"
    and ti: "str_truthy (updatedField id_stamped_service)"
    and ei: "updatedField id_stamped_service = Some (idField id_stamped_service)"
    and idi: "idField id_stamped_service = ''id''"
    by (simp_all add: default_service_def unstamped_service_def id_stamped_service_def
        str_truthy_def)
  have out: "ur_outcome (update default_service ?doc None no_options 42) = Inr ?q"
    by (simp add: default_service_def update_def applyUpdates_def stamp_def str_truthy_def
        set_prop_def get_prop_def delete_prop_def assign_copy_def okeys_def set_clauses_def
        set_args_def no_options_def Let_def)
  note a = C6_stamp_follows_instance_field
      [of default_service ?doc None no_options 42 None ?pd "Some default_options" default_service]
  note b = C6_stamp_follows_instance_field
      [of unstamped_service ?doc None no_options 42 None ?pd "Some default_options" default_service]
  note c = C6_stamp_follows_instance_field
      [of id_stamped_service ?row None no_options 42 None ?pd "Some default_options" default_service]
  from a t ne
  have a2: "(\<forall>q. ur_outcome (update default_service ?doc None no_options 42) = Inr q \<longrightarrow>
         (\<exists>n. (the (updatedField default_service), n) \<in> set (stmt_sets (q_stmt q))
              \<and> arg_at (q_args q) n = VDate 42))
      \<and> (\<exists>n. (the (updatedField default_service), n)
                 \<in> set (stmt_sets (q_stmt (br_query (bulkUpdate default_service None ?pd no_options 42))))
               \<and> arg_at (q_args (br_query (bulkUpdate default_service None ?pd no_options 42))) n
                   = VDate 42)"
    by blast
  from a2 out
  have "\<exists>n. (the (updatedField default_service), n) \<in> set (stmt_sets (q_stmt ?q))
            \<and> arg_at (q_args ?q) n = VDate 42"
    by blast
  with out uf
  have ex: "\<exists>q n. ur_outcome (update default_service ?doc None no_options 42) = Inr q
          \<and> (''updated'', n) \<in> set (stmt_sets (q_stmt q)) \<and> arg_at (q_args q) n = VDate 42"
    by metis
  from a2 uf
  have exb: "\<exists>n. (''updated'', n)
             \<in> set (stmt_sets (q_stmt (br_query (bulkUpdate default_service None ?pd no_options 42))))
           \<and> arg_at (q_args (br_query (bulkUpdate default_service None ?pd no_options 42))) n
               = VDate 42"
    by simp
  from c ti ei
  have c3: "(\<exists>q. ur_outcome (update id_stamped_service ?row None no_options 42) = Inr q
            \<and> idField id_stamped_service \<notin> fst ` set (stmt_sets (q_stmt q))
            \<and> stmt_where (q_stmt q) = [CCmp (idField id_stamped_service) OpEq (length (q_args q))]
            \<and> arg_at (q_args q) (length (q_args q)) = VDate 42)
      \<and> idField id_stamped_service
           \<notin> fst ` set (stmt_sets (q_stmt (br_query
                 (bulkUpdate id_stamped_service None ?pd no_options 42))))"
    by blast
  from a t uf have d: "ur_doc (update default_service ?doc None no_options 42)
       = set_prop (applyUpdates default_service ?doc None) ''updated'' (VDate 42)"
    "br_data (bulkUpdate default_service None ?pd no_options 42)
       = set_prop ?pd ''updated'' (VDate 42)"
    by simp_all
  from b u have e: "ur_doc (update unstamped_service ?doc None no_options 42)
       = applyUpdates unstamped_service ?doc None"
    "br_data (bulkUpdate unstamped_service None ?pd no_options 42) = ?pd"
    by simp_all
  show ?thesis
    using t u ne ex exb ti ei c3 [unfolded idi] d e constructor_default by simp
qed

end
